theory Spec2Isabelle
  imports Main "HOL-Library.Sublist"
begin

section \<open>The manifest\<close>

text \<open>
  The manifest is the JSON document \<^verbatim>\<open>.birb/birb.json\<close> as \<^verbatim>\<open>create_birb_json\<close> writes it.
  \<^verbatim>\<open>platform_build_commands\<close> is a Python dict that is iterated in insertion order, so it is
  an association list; a JSON \<^verbatim>\<open>null\<close> command is \<open>None\<close>. \<^verbatim>\<open>custom_build_command\<close> can be
  \<^verbatim>\<open>null\<close> too: \<^verbatim>\<open>create_birb_json\<close> copies it from the mapping. \<^verbatim>\<open>clean_before_build\<close> is read
  with \<^verbatim>\<open>.get(..., False)\<close>, so the key may be missing.
\<close>

record versioning_cfg =
  auto_increment :: bool
  increment_type :: string
  current_version :: string

record build_cfg =
  custom_build_command :: "string option"
  platform_build_commands :: "(string \<times> string option) list"
  output_directory :: string
  clean_before_build :: "bool option"

record git_cfg =
  repo_name :: string
  branch :: string
  auto_commit :: bool
  commit_message_template :: string
  vcs_push_command :: "string list"

record config =
  project_name :: string
  versioning :: versioning_cfg
  build :: build_cfg
  git_integration :: git_cfg

section \<open>The file system, the processes and the output\<close>

text \<open>
  A file either holds a manifest that \<^verbatim>\<open>json.load\<close> parses into the shape above, or anything
  else. A symbolic link is a leaf: \<open>Symlink\<close> is a link that leads nowhere or to something
  that is neither a file nor a directory (\<^verbatim>\<open>exists\<close>, \<^verbatim>\<open>isfile\<close> and \<^verbatim>\<open>isdir\<close> are false on it,
  \<^verbatim>\<open>islink\<close> is true). A link that leads to a file or to a directory has no node here: the
  trees are the projects without such links, and what the program does in a project with one
  (a \<^verbatim>\<open>.birb\<close> or an output directory reached through a link) is not described by the
  functions below. A directory lists its children in the order \<^verbatim>\<open>os.listdir\<close> returns them.
  Devices, pipes and sockets are not modelled.
\<close>

datatype file_content = Manifest_json config | Other_content

datatype node = File file_content | Symlink | Dir "(string \<times> node) list"

datatype exc = OSError | JSONDecodeError | FormatError | EOFError | TypeError

datatype 'a outcome = Returned 'a | Raised exc

datatype spawn = Exited int | Not_started

datatype message =
    Msg_manifest_not_found
  | Msg_created
  | Msg_welcome
  | Msg_prompt string
  | Msg_executing string
  | Msg_build_succeeded
  | Msg_build_failed int
  | Msg_committing string
  | Msg_committed
  | Msg_commit_failed int
  | Msg_push_executing string
  | Msg_push_succeeded
  | Msg_push_failed int
  | Msg_cleaning string
  | Msg_deleted string string
  | Msg_delete_failed string string
  | Msg_building_platforms
  | Msg_building_for string
  | Msg_no_platform_commands

text \<open>
  What a run does that can be seen from outside: the lines it prints, the commands it hands
  to \<^verbatim>\<open>subprocess.run\<close> with their exit status, and each call of \<^verbatim>\<open>git_commit\<close> with its
  two arguments.
\<close>

datatype event =
    Print message
  | Build_run string int
  | Push_run string int
  | Git_run "string list" spawn
  | Enter_git_commit string string

text \<open>
  The state of a run: the working directory (a location, as the names from the root), the
  file system, the number of child processes started so far, and the events so far.
\<close>

record state =
  cwd :: "string list"
  fs :: node
  clock :: nat
  out :: "event list"

text \<open>
  Everything the program does not decide itself:
  \<^item> \<open>sh\<close>: what a command line run through the shell does to the file system, and its exit
    status. With \<^verbatim>\<open>shell=True\<close> the shell itself is started, so a missing program shows as a
    non-zero exit status. The child gets the count of processes started before it and the
    working directory, and cannot change the working directory of the tool.
  \<^item> \<open>git\<close>: the same for \<^verbatim>\<open>subprocess.run(["git", ...])\<close>, which raises an \<^verbatim>\<open>OSError\<close> when
    \<^verbatim>\<open>git\<close> cannot be started.
  \<^item> \<open>locate\<close>: the location a path string denotes from a working directory.
  \<^item> \<open>denied\<close>: the locations the operating system refuses to delete (permissions, locks).
  \<^item> \<open>format_complex\<close>: the result of \<^verbatim>\<open>str.format\<close> on a template with a replacement field
    that has a conversion, a format specification, an attribute or an index.
  \<^item> \<open>py_strip\<close>: \<^verbatim>\<open>str.strip()\<close>, which removes the leading and the trailing white space of
    Unicode, whatever the encoding of a string makes of it.
\<close>

record env =
  sh :: "nat \<Rightarrow> string list \<Rightarrow> string \<Rightarrow> node \<Rightarrow> int \<times> node"
  git :: "nat \<Rightarrow> string list \<Rightarrow> string list \<Rightarrow> node \<Rightarrow> spawn \<times> node"
  locate :: "string list \<Rightarrow> string \<Rightarrow> string list"
  denied :: "string list \<Rightarrow> bool"
  format_complex :: "string \<Rightarrow> string \<Rightarrow> string \<Rightarrow> string outcome"
  py_strip :: "string \<Rightarrow> string"

subsection \<open>Locations in the tree\<close>

fun lookup :: "node \<Rightarrow> string list \<Rightarrow> node option" where
  "lookup n [] = Some n"
| "lookup (Dir es) (c # cs) = (case map_of es c of None \<Rightarrow> None | Some n \<Rightarrow> lookup n cs)"
| "lookup (File _) (c # cs) = None"
| "lookup Symlink (c # cs) = None"

fun remove_at :: "node \<Rightarrow> string list \<Rightarrow> node" where
  "remove_at n [] = n"
| "remove_at (Dir es) [c] = Dir (filter (\<lambda>e. fst e \<noteq> c) es)"
| "remove_at (Dir es) (c # d # cs) =
     Dir (map (\<lambda>e. if fst e = c then (fst e, remove_at (snd e) (d # cs)) else e) es)"
| "remove_at (File x) (c # cs) = File x"
| "remove_at Symlink (c # cs) = Symlink"

fun put_at :: "node \<Rightarrow> string list \<Rightarrow> node \<Rightarrow> node" where
  "put_at n [] new = new"
| "put_at (Dir es) (c # cs) new =
     (case map_of es c of
        None \<Rightarrow> (if cs = [] then Dir (es @ [(c, new)]) else Dir es)
      | Some _ \<Rightarrow> Dir (map (\<lambda>e. if fst e = c then (fst e, put_at (snd e) cs new) else e) es))"
| "put_at (File x) (c # cs) new = File x"
| "put_at Symlink (c # cs) new = Symlink"

subsection \<open>The calls into \<^verbatim>\<open>os\<close>, \<^verbatim>\<open>subprocess\<close> and \<^verbatim>\<open>print\<close>\<close>

definition emit :: "event \<Rightarrow> state \<Rightarrow> state" where
  "emit e st = st\<lparr>out := out st @ [e]\<rparr>"

definition print :: "message \<Rightarrow> state \<Rightarrow> state" where
  "print m st = emit (Print m) st"

definition BIRB_DIR :: string where
  "BIRB_DIR = ''.birb''"

definition BIRB_CONFIG_FILE :: "string list" where
  "BIRB_CONFIG_FILE = [BIRB_DIR, ''birb.json'']"

definition path_exists :: "state \<Rightarrow> string list \<Rightarrow> bool" where
  "path_exists st p = (case lookup (fs st) p of None \<Rightarrow> False | Some Symlink \<Rightarrow> False | Some _ \<Rightarrow> True)"

definition path_isfile :: "state \<Rightarrow> string list \<Rightarrow> bool" where
  "path_isfile st p = (case lookup (fs st) p of Some (File _) \<Rightarrow> True | _ \<Rightarrow> False)"

definition path_islink :: "state \<Rightarrow> string list \<Rightarrow> bool" where
  "path_islink st p = (case lookup (fs st) p of Some Symlink \<Rightarrow> True | _ \<Rightarrow> False)"

definition path_isdir :: "state \<Rightarrow> string list \<Rightarrow> bool" where
  "path_isdir st p = (case lookup (fs st) p of Some (Dir _) \<Rightarrow> True | _ \<Rightarrow> False)"

text \<open>
  \<^verbatim>\<open>os.listdir\<close> returns the names in a directory and raises on anything else. Every directory
  of the tree can be read: the locations that \<open>denied\<close> names refuse a deletion only.
\<close>

definition os_listdir :: "state \<Rightarrow> string list \<Rightarrow> string list outcome" where
  "os_listdir st p = (case lookup (fs st) p of Some (Dir es) \<Rightarrow> Returned (map fst es) | _ \<Rightarrow> Raised OSError)"

definition os_unlink :: "env \<Rightarrow> string list \<Rightarrow> state \<Rightarrow> unit outcome \<times> state" where
  "os_unlink E p st =
     (if denied E p then (Raised OSError, st)
      else case lookup (fs st) p of
             Some (File _) \<Rightarrow> (Returned (), st\<lparr>fs := remove_at (fs st) p\<rparr>)
           | Some Symlink \<Rightarrow> (Returned (), st\<lparr>fs := remove_at (fs st) p\<rparr>)
           | _ \<Rightarrow> (Raised OSError, st))"

definition os_rmdir :: "env \<Rightarrow> string list \<Rightarrow> state \<Rightarrow> unit outcome \<times> state" where
  "os_rmdir E p st =
     (if denied E p then (Raised OSError, st)
      else case lookup (fs st) p of
             Some (Dir []) \<Rightarrow> (Returned (), st\<lparr>fs := remove_at (fs st) p\<rparr>)
           | _ \<Rightarrow> (Raised OSError, st))"

text \<open>
  \<^verbatim>\<open>os.chdir\<close> on the two arguments the program gives it, a name under the working directory
  and \<^verbatim>\<open>..\<close>. The working directory is a list of directory names without links, so \<^verbatim>\<open>..\<close> is
  the list without its last name. In a project whose \<^verbatim>\<open>.birb\<close> is a link to a directory
  elsewhere, which has no tree here, \<^verbatim>\<open>os.chdir(".birb")\<close> follows the link and \<^verbatim>\<open>os.chdir("..")\<close>
  then leads to the parent of the directory the link names, not back to the project.
\<close>

definition os_chdir :: "string \<Rightarrow> state \<Rightarrow> unit outcome \<times> state" where
  "os_chdir name st =
     (if name = ''..'' then (Returned (), st\<lparr>cwd := butlast (cwd st)\<rparr>)
      else if path_isdir st (cwd st @ [name]) then (Returned (), st\<lparr>cwd := cwd st @ [name]\<rparr>)
      else (Raised OSError, st))"

definition run_shell :: "env \<Rightarrow> string \<Rightarrow> state \<Rightarrow> int \<times> state" where
  "run_shell E command st =
     (let (rc, fs') = sh E (clock st) (cwd st) command (fs st)
      in (rc, st\<lparr>fs := fs', clock := Suc (clock st)\<rparr>))"

definition run_git :: "env \<Rightarrow> string list \<Rightarrow> state \<Rightarrow> spawn \<times> state" where
  "run_git E argv st =
     (let (r, fs') = git E (clock st) (cwd st) argv (fs st)
      in (r, emit (Git_run argv r) (st\<lparr>fs := fs', clock := Suc (clock st)\<rparr>)))"

section \<open>The program\<close>

subsection \<open>\<^verbatim>\<open>str.format(version=..., platform=...)\<close>\<close>

text \<open>
  \<^verbatim>\<open>str.format\<close> reads the template from left to right: \<^verbatim>\<open>{{\<close> and \<^verbatim>\<open>}}\<close> are the literal
  braces, \<^verbatim>\<open>{name}\<close> is replaced by the keyword argument of that name, and it raises on a
  single brace (\<^verbatim>\<open>ValueError\<close>), on an empty or numeric field (\<^verbatim>\<open>IndexError\<close>, no positional
  argument is given) and on any other name (\<^verbatim>\<open>KeyError\<close>); the three are \<open>FormatError\<close> here.
  A field that holds one of the characters \<^verbatim>\<open>{ [ ! : .\<close> is left to \<open>format_complex\<close>.
\<close>

datatype formatted = Formatted string | Format_raises | Complex_field

definition plain_char :: "char \<Rightarrow> bool" where
  "plain_char c = (c \<notin> set ''{}[]!:.'')"

definition lit :: "char \<Rightarrow> formatted \<Rightarrow> formatted" where
  "lit c r = (case r of Formatted s \<Rightarrow> Formatted (c # s) | Format_raises \<Rightarrow> Format_raises
              | Complex_field \<Rightarrow> Complex_field)"

definition subst :: "string \<Rightarrow> formatted \<Rightarrow> formatted" where
  "subst v r = (case r of Formatted s \<Rightarrow> Formatted (v @ s) | Format_raises \<Rightarrow> Format_raises
                | Complex_field \<Rightarrow> Complex_field)"

function format_scan :: "string \<Rightarrow> string \<Rightarrow> string \<Rightarrow> formatted" where
  "format_scan version platform [] = Formatted []"
| "format_scan version platform (c # cs) =
     (if c = CHR ''{'' then
        (if cs \<noteq> [] \<and> hd cs = CHR ''{'' then lit CHR ''{'' (format_scan version platform (tl cs))
         else
           (let name = takeWhile plain_char cs; rest = dropWhile plain_char cs
            in if rest = [] then Format_raises
               else if hd rest = CHR ''}'' then
                 (if name = ''version'' then subst version (format_scan version platform (tl rest))
                  else if name = ''platform'' then subst platform (format_scan version platform (tl rest))
                  else Format_raises)
               else Complex_field))
      else if c = CHR ''}'' then
        (if cs \<noteq> [] \<and> hd cs = CHR ''}'' then lit CHR ''}'' (format_scan version platform (tl cs))
         else Format_raises)
      else lit c (format_scan version platform cs))"
  by pat_completeness auto
termination
proof (relation "measure (\<lambda>(v, p, s). length s)")
  show "wf (measure (\<lambda>(v, p, s). length s))" by simp
next
  fix version platform :: string and c :: char and cs :: string
  assume "cs \<noteq> [] \<and> hd cs = CHR ''{''"
  then show "((version, platform, tl cs), (version, platform, c # cs)) \<in> measure (\<lambda>(v, p, s). length s)"
    by simp
next
  fix version platform :: string and c :: char and cs x xa :: string
  assume "xa = dropWhile plain_char cs"
  then have "length (tl xa) \<le> length cs"
    using length_dropWhile_le [of plain_char cs] by simp
  then show "((version, platform, tl xa), (version, platform, c # cs)) \<in> measure (\<lambda>(v, p, s). length s)"
    by simp
next
  fix version platform :: string and c :: char and cs x xa :: string
  assume "xa = dropWhile plain_char cs"
  then have "length (tl xa) \<le> length cs"
    using length_dropWhile_le [of plain_char cs] by simp
  then show "((version, platform, tl xa), (version, platform, c # cs)) \<in> measure (\<lambda>(v, p, s). length s)"
    by simp
next
  fix version platform :: string and c :: char and cs :: string
  assume "cs \<noteq> [] \<and> hd cs = CHR ''}''"
  then show "((version, platform, tl cs), (version, platform, c # cs)) \<in> measure (\<lambda>(v, p, s). length s)"
    by simp
next
  fix version platform :: string and c :: char and cs :: string
  show "((version, platform, cs), (version, platform, c # cs)) \<in> measure (\<lambda>(v, p, s). length s)"
    by simp
qed

definition format_template :: "env \<Rightarrow> string \<Rightarrow> string \<Rightarrow> string \<Rightarrow> string outcome" where
  "format_template E template version platform =
     (case format_scan version platform template of
        Formatted s \<Rightarrow> Returned s
      | Format_raises \<Rightarrow> Raised FormatError
      | Complex_field \<Rightarrow> format_complex E template version platform)"

subsection \<open>\<^verbatim>\<open>load_birb_json\<close>\<close>

text \<open>
  The file is looked for under the working directory. A missing file is reported and gives
  \<^verbatim>\<open>None\<close>; a directory of that name cannot be opened; a file that holds no manifest makes
  \<^verbatim>\<open>json.load\<close> raise.
\<close>

definition load_birb_json :: "state \<Rightarrow> config option outcome \<times> state" where
  "load_birb_json st =
     (if \<not> path_exists st (cwd st @ BIRB_CONFIG_FILE)
      then (Returned None, print Msg_manifest_not_found st)
      else case lookup (fs st) (cwd st @ BIRB_CONFIG_FILE) of
             Some (File (Manifest_json config)) \<Rightarrow> (Returned (Some config), st)
           | Some (File Other_content) \<Rightarrow> (Raised JSONDecodeError, st)
           | _ \<Rightarrow> (Raised OSError, st))"

subsection \<open>\<^verbatim>\<open>execute_build_command\<close>\<close>

text \<open>The result is the truth value of what the source returns: the completed process or \<^verbatim>\<open>None\<close>.\<close>

definition execute_build_command :: "env \<Rightarrow> string \<Rightarrow> state \<Rightarrow> bool \<times> state" where
  "execute_build_command E command st =
     (let st1 = print (Msg_executing command) st;
          (rc, st2) = run_shell E command st1;
          st3 = emit (Build_run command rc) st2
      in if rc = 0 then (True, print Msg_build_succeeded st3)
         else (False, print (Msg_build_failed rc) st3))"

subsection \<open>\<^verbatim>\<open>git_commit\<close>\<close>

text \<open>
  The body of the \<^verbatim>\<open>try\<close> (lines 126 to 132): a non-zero exit status of \<^verbatim>\<open>git\<close> is the
  \<^verbatim>\<open>CalledProcessError\<close> that the \<^verbatim>\<open>except\<close> clause reports and turns into a return; any
  other exception leaves the \<^verbatim>\<open>try\<close> as it is.
\<close>

definition git_commit_try :: "env \<Rightarrow> string \<Rightarrow> state \<Rightarrow> unit outcome \<times> state" where
  "git_commit_try E commit_message st =
     (case os_chdir BIRB_DIR st of
        (Raised e, st1) \<Rightarrow> (Raised e, st1)
      | (Returned _, st1) \<Rightarrow>
          (case run_git E [''git'', ''add'', ''.''] st1 of
             (Not_started, st2) \<Rightarrow> (Raised OSError, st2)
           | (Exited rc, st2) \<Rightarrow>
               if rc \<noteq> 0 then (Returned (), print (Msg_commit_failed rc) st2)
               else
                 (case run_git E [''git'', ''commit'', ''-m'', commit_message] st2 of
                    (Not_started, st3) \<Rightarrow> (Raised OSError, st3)
                  | (Exited rc', st3) \<Rightarrow>
                      if rc' \<noteq> 0 then (Returned (), print (Msg_commit_failed rc') st3)
                      else (Returned (), print Msg_committed st3))))"

text \<open>
  The \<^verbatim>\<open>finally\<close> clause (line 134, \<^verbatim>\<open>os.chdir("..")\<close> with the comment that it changes back to
  the original directory) runs after the \<^verbatim>\<open>try\<close> however it ends. It goes one directory up,
  which is the directory of the call when \<^verbatim>\<open>.birb\<close> is a directory of the project itself (the
  only projects with a tree here); it is not when \<^verbatim>\<open>.birb\<close> is a link to a directory elsewhere.
\<close>

definition git_commit :: "env \<Rightarrow> string \<Rightarrow> string \<Rightarrow> state \<Rightarrow> unit outcome \<times> state" where
  "git_commit E version platform st0 =
     (case load_birb_json (emit (Enter_git_commit version platform) st0) of
        (Raised e, st) \<Rightarrow> (Raised e, st)
      | (Returned None, st) \<Rightarrow> (Returned (), st)
      | (Returned (Some config), st) \<Rightarrow>
          if \<not> auto_commit (git_integration config) then (Returned (), st)
          else
            (case format_template E (commit_message_template (git_integration config))
                    version platform of
               Raised e \<Rightarrow> (Raised e, st)
             | Returned commit_message \<Rightarrow>
                 (let (r, st1) = git_commit_try E commit_message
                                   (print (Msg_committing commit_message) st)
                  in (r, snd (os_chdir ''..'' st1)))))"

subsection \<open>\<^verbatim>\<open>execute_vcs_push_commands\<close>\<close>

fun execute_vcs_push_commands :: "env \<Rightarrow> string list \<Rightarrow> state \<Rightarrow> state" where
  "execute_vcs_push_commands E [] st = st"
| "execute_vcs_push_commands E (command # rest) st =
     (let st1 = print (Msg_push_executing command) st;
          (rc, st2) = run_shell E command st1;
          st3 = emit (Push_run command rc) st2
      in execute_vcs_push_commands E rest
           (if rc = 0 then print Msg_push_succeeded st3 else print (Msg_push_failed rc) st3))"

subsection \<open>\<^verbatim>\<open>build_project\<close>\<close>

text \<open>One pass of the cleaning loop (lines 161 to 169).\<close>

definition clean_entry :: "env \<Rightarrow> string \<Rightarrow> string \<Rightarrow> state \<Rightarrow> state" where
  "clean_entry E output_dir filename st =
     (let file_path = locate E (cwd st) output_dir @ [filename];
          (r, st1) =
            (if path_isfile st file_path \<or> path_islink st file_path then os_unlink E file_path st
             else if path_isdir st file_path then os_rmdir E file_path st
             else (Returned (), st))
      in case r of
           Returned _ \<Rightarrow> print (Msg_deleted output_dir filename) st1
         | Raised e \<Rightarrow> print (Msg_delete_failed output_dir filename) st1)"

fun clean_entries :: "env \<Rightarrow> string \<Rightarrow> string list \<Rightarrow> state \<Rightarrow> state" where
  "clean_entries E output_dir [] st = st"
| "clean_entries E output_dir (filename # rest) st =
     clean_entries E output_dir rest (clean_entry E output_dir filename st)"

text \<open>The cleaning of the output directory (lines 159 to 169); \<^verbatim>\<open>os.listdir\<close> is outside the \<^verbatim>\<open>try\<close>.\<close>

definition clean_old_builds :: "env \<Rightarrow> string \<Rightarrow> state \<Rightarrow> unit outcome \<times> state" where
  "clean_old_builds E output_dir st =
     (if path_exists st (locate E (cwd st) output_dir) then
        (case os_listdir st (locate E (cwd st) output_dir) of
           Raised e \<Rightarrow> (Raised e, st)
         | Returned names \<Rightarrow> (Returned (), clean_entries E output_dir names st))
      else (Returned (), st))"

text \<open>The two statements that follow a successful build (lines 180 and 182, 189 and 191).\<close>

definition commit_and_push :: "env \<Rightarrow> config \<Rightarrow> string \<Rightarrow> state \<Rightarrow> unit outcome \<times> state" where
  "commit_and_push E config platform st =
     (case git_commit E (current_version (versioning config)) platform st of
        (Raised e, st1) \<Rightarrow> (Raised e, st1)
      | (Returned _, st1) \<Rightarrow>
          (Returned (), execute_vcs_push_commands E (vcs_push_command (git_integration config)) st1))"

text \<open>The loop over \<^verbatim>\<open>platform_commands.items()\<close> (lines 174 to 182).\<close>

fun build_platforms ::
  "env \<Rightarrow> config \<Rightarrow> (string \<times> string option) list \<Rightarrow> state \<Rightarrow> unit outcome \<times> state" where
  "build_platforms E config [] st = (Returned (), st)"
| "build_platforms E config ((platform, None) # rest) st = build_platforms E config rest st"
| "build_platforms E config ((platform, Some command) # rest) st =
     (case execute_build_command E command (print (Msg_building_for platform) st) of
        (True, st1) \<Rightarrow>
          (case commit_and_push E config platform st1 of
             (Raised e, st2) \<Rightarrow> (Raised e, st2)
           | (Returned _, st2) \<Rightarrow> build_platforms E config rest st2)
      | (False, st1) \<Rightarrow> build_platforms E config rest st1)"

text \<open>
  Lines 171 to 191: the choice between the two modes, and the builds. On a custom command
  that is \<^verbatim>\<open>null\<close>, \<^verbatim>\<open>execute_build_command\<close> prints its first line and \<^verbatim>\<open>subprocess.run\<close>
  raises a \<^verbatim>\<open>TypeError\<close>, which nothing catches.
\<close>

definition run_builds :: "env \<Rightarrow> config \<Rightarrow> state \<Rightarrow> unit outcome \<times> state" where
  "run_builds E config st =
     (let platform_commands = platform_build_commands (build config);
          custom_command = custom_build_command (build config)
      in if \<exists>command \<in> set (map snd platform_commands). command \<noteq> None then
           build_platforms E config platform_commands (print Msg_building_platforms st)
         else
           (case custom_command of
              None \<Rightarrow>
                (Raised TypeError,
                 print (Msg_executing ''None'') (print Msg_no_platform_commands st))
            | Some command \<Rightarrow>
                (case execute_build_command E command (print Msg_no_platform_commands st) of
                   (True, st1) \<Rightarrow> commit_and_push E config ''custom'' st1
                 | (False, st1) \<Rightarrow> (Returned (), st1))))"

definition build_project :: "env \<Rightarrow> state \<Rightarrow> unit outcome \<times> state" where
  "build_project E st0 =
     (case load_birb_json st0 of
        (Raised e, st) \<Rightarrow> (Raised e, st)
      | (Returned None, st) \<Rightarrow> (Returned (), st)
      | (Returned (Some config), st) \<Rightarrow>
          (let output_dir = output_directory (build config);
               clean = (case clean_before_build (build config) of None \<Rightarrow> False | Some b \<Rightarrow> b)
           in case (if clean then clean_old_builds E output_dir (print (Msg_cleaning output_dir) st)
                    else (Returned (), st)) of
                (Raised e, st1) \<Rightarrow> (Raised e, st1)
              | (Returned _, st1) \<Rightarrow> run_builds E config st1))"

subsection \<open>\<^verbatim>\<open>create_birb_json\<close> and \<^verbatim>\<open>interactive_create\<close>\<close>

text \<open>
  \<^verbatim>\<open>os.makedirs(name, exist_ok=True)\<close> for one name under the working directory: nothing to do
  when the directory is there, an error when something else has the name.
\<close>

definition os_makedirs :: "string \<Rightarrow> state \<Rightarrow> unit outcome \<times> state" where
  "os_makedirs name st =
     (case lookup (fs st) (cwd st @ [name]) of
        Some (Dir es) \<Rightarrow> (Returned (), st)
      | Some _ \<Rightarrow> (Raised OSError, st)
      | None \<Rightarrow>
          if path_isdir st (cwd st)
          then (Returned (), st\<lparr>fs := put_at (fs st) (cwd st @ [name]) (Dir [])\<rparr>)
          else (Raised OSError, st))"

text \<open>
  \<^verbatim>\<open>open(file, 'w')\<close> and \<^verbatim>\<open>json.dump\<close>: the file is created in its directory or replaced. A
  directory of that name and a missing directory are errors. A symbolic link of that name is
  written through; the name then reads as the file written.
\<close>

definition write_json :: "string list \<Rightarrow> config \<Rightarrow> state \<Rightarrow> unit outcome \<times> state" where
  "write_json file config st =
     (case lookup (fs st) (cwd st @ file) of
        Some (Dir es) \<Rightarrow> (Raised OSError, st)
      | Some _ \<Rightarrow> (Returned (), st\<lparr>fs := put_at (fs st) (cwd st @ file) (File (Manifest_json config))\<rparr>)
      | None \<Rightarrow>
          if path_isdir st (butlast (cwd st @ file))
          then (Returned (), st\<lparr>fs := put_at (fs st) (cwd st @ file) (File (Manifest_json config))\<rparr>)
          else (Raised OSError, st))"

text \<open>
  The manifest that \<^verbatim>\<open>create_birb_json\<close> writes: \<^verbatim>\<open>custom_build_command\<close> is what the mapping has
  under \<^verbatim>\<open>custom\<close> (a \<^verbatim>\<open>null\<close> included), \<^verbatim>\<open>make build\<close> when it has no such key, and the mapping
  itself is stored whole, the key \<^verbatim>\<open>custom\<close> included.
\<close>

definition create_birb_json ::
  "string \<Rightarrow> string \<Rightarrow> bool \<Rightarrow> (string \<times> string option) list \<Rightarrow> string \<Rightarrow> bool \<Rightarrow>
   string \<Rightarrow> string \<Rightarrow> string list \<Rightarrow> state \<Rightarrow> unit outcome \<times> state" where
  "create_birb_json name version generate_config platform_commands output_dir clean repo branch_name
     vcs st =
     (case os_makedirs BIRB_DIR st of
        (Raised e, st1) \<Rightarrow> (Raised e, st1)
      | (Returned _, st1) \<Rightarrow>
          (let birb_config =
                 \<lparr>project_name = name,
                  versioning = \<lparr>auto_increment = True, increment_type = ''patch'',
                                current_version = version\<rparr>,
                  build = \<lparr>custom_build_command =
                             (case map_of platform_commands ''custom'' of
                                None \<Rightarrow> Some ''make build'' | Some command \<Rightarrow> command),
                           platform_build_commands = platform_commands,
                           output_directory = output_dir,
                           clean_before_build = Some clean\<rparr>,
                  git_integration = \<lparr>repo_name = repo, branch = branch_name, auto_commit = True,
                           commit_message_template = ''Release {version} for {platform}'',
                           vcs_push_command = vcs\<rparr>\<rparr>
           in case write_json BIRB_CONFIG_FILE birb_config st1 of
                (Raised e, st2) \<Rightarrow> (Raised e, st2)
              | (Returned _, st2) \<Rightarrow> (Returned (), print Msg_created st2)))"

text \<open>
  \<^verbatim>\<open>str.lower\<close> on the ASCII letters: its results are only compared with \<^verbatim>\<open>null\<close> and \<^verbatim>\<open>y\<close>, and
  no other character has one of the letters of these two words as its lower case (the Kelvin
  sign gives \<^verbatim>\<open>k\<close>). \<^verbatim>\<open>str.split\<close> on one separator; the assignment \<^verbatim>\<open>d[k] = v\<close> on a dict, which
  keeps the place of a key that is there and appends a new one.
\<close>

definition lower_char :: "char \<Rightarrow> char" where
  "lower_char c =
     (case map_of (zip ''ABCDEFGHIJKLMNOPQRSTUVWXYZ'' ''abcdefghijklmnopqrstuvwxyz'') c of
        None \<Rightarrow> c | Some l \<Rightarrow> l)"

definition lower :: "string \<Rightarrow> string" where
  "lower s = map lower_char s"

fun split_on :: "char \<Rightarrow> string \<Rightarrow> string list" where
  "split_on sep [] = [[]]"
| "split_on sep (c # cs) =
     (if c = sep then [] # split_on sep cs
      else (case split_on sep cs of [] \<Rightarrow> [[c]] | w # ws \<Rightarrow> (c # w) # ws))"

fun dict_set :: "(string \<times> 'v) list \<Rightarrow> string \<Rightarrow> 'v \<Rightarrow> (string \<times> 'v) list" where
  "dict_set [] k v = [(k, v)]"
| "dict_set (e # es) k v = (if fst e = k then (k, v) # es else e # dict_set es k v)"

text \<open>
  \<^verbatim>\<open>input(prompt)\<close>: the prompt is printed, the result is the next line of the standard
  input, and \<^verbatim>\<open>EOFError\<close> is raised at its end. \<open>continue\<close> is the rest of the function.
\<close>

definition py_input ::
  "string \<Rightarrow> (string \<Rightarrow> string list \<Rightarrow> state \<Rightarrow> unit outcome \<times> state) \<Rightarrow>
   string list \<Rightarrow> state \<Rightarrow> unit outcome \<times> state" where
  "py_input prompt continue inputs st =
     (case inputs of
        [] \<Rightarrow> (Raised EOFError, print (Msg_prompt prompt) st)
      | line # rest \<Rightarrow> continue line rest (print (Msg_prompt prompt) st))"

text \<open>The loop over the three platforms (lines 203 to 208).\<close>

fun ask_platforms ::
  "string list \<Rightarrow> (string \<times> string option) list \<Rightarrow> string list \<Rightarrow> state \<Rightarrow>
   ((string \<times> string option) list \<times> string list) outcome \<times> state" where
  "ask_platforms [] platform_commands inputs st = (Returned (platform_commands, inputs), st)"
| "ask_platforms (platform # rest) platform_commands inputs st =
     (let st1 = print (Msg_prompt (''Enter the build command for '' @ platform @
                         '' (or type 'null' to ignore this OS): '')) st
      in case inputs of
           [] \<Rightarrow> (Raised EOFError, st1)
         | command # inputs1 \<Rightarrow>
             ask_platforms rest
               (dict_set platform_commands platform
                  (if lower command = ''null'' then None
                   else Some (if command \<noteq> [] then command
                              else ''build_script.'' @ platform @ ''.sh'')))
               inputs1 st1)"

definition interactive_create :: "env \<Rightarrow> string list \<Rightarrow> state \<Rightarrow> unit outcome \<times> state" where
  "interactive_create E inputs st =
     py_input ''Enter your project name: '' (\<lambda>name.
     py_input ''Enter your initial version (e.g., 0.0.0): '' (\<lambda>version inputs1 st1.
       case ask_platforms [''windows'', ''linux'', ''macos''] [] inputs1 st1 of
         (Raised e, st2) \<Rightarrow> (Raised e, st2)
       | (Returned (platform_commands, inputs2), st2) \<Rightarrow>
           py_input ''Enter a custom build command (or press Enter for default 'make build'): ''
             (\<lambda>custom_command.
           py_input ''Enter custom output directory (or press Enter for './builds'): ''
             (\<lambda>output_dir.
           py_input ''Clean old builds before new ones? (y/n): '' (\<lambda>clean_input.
           py_input ''Enter your Git repository name: '' (\<lambda>repo.
           py_input ''Enter the branch name (default: 'main'): '' (\<lambda>branch_name.
           py_input ''Enter VCS push commands separated by commas (or press Enter to skip): ''
             (\<lambda>vcs_input inputs3 st3.
               create_birb_json name version True
                 (dict_set platform_commands ''custom''
                    (Some (if custom_command \<noteq> [] then custom_command else ''make build'')))
                 (if output_dir \<noteq> [] then output_dir else ''./builds'')
                 (lower clean_input = ''y'')
                 repo
                 (if branch_name \<noteq> [] then branch_name else ''main'')
                 (if vcs_input \<noteq> [] then map (py_strip E) (split_on CHR '','' vcs_input) else [])
                 st3))))))
             inputs2 st2))
       inputs (print Msg_welcome st)"

subsection \<open>Reading the events of a run\<close>

definition emitted :: "state \<Rightarrow> state \<Rightarrow> event list" where
  "emitted st st' = drop (length (out st)) (out st')"

text \<open>
  The events of a run are read through projections: the build commands and the push commands
  with their exit status, the \<^verbatim>\<open>git\<close> calls, the calls of \<^verbatim>\<open>git_commit\<close>, the printed lines,
  the platforms announced by \<^verbatim>\<open>Building for ...\<close>, and the two lines that announce the
  mode.
\<close>

definition build_runs :: "event list \<Rightarrow> (string \<times> int) list" where
  "build_runs es = concat (map (\<lambda>e. case e of Build_run c rc \<Rightarrow> [(c, rc)] | _ \<Rightarrow> []) es)"

definition push_runs :: "event list \<Rightarrow> (string \<times> int) list" where
  "push_runs es = concat (map (\<lambda>e. case e of Push_run c rc \<Rightarrow> [(c, rc)] | _ \<Rightarrow> []) es)"

definition git_runs :: "event list \<Rightarrow> (string list \<times> spawn) list" where
  "git_runs es = concat (map (\<lambda>e. case e of Git_run argv r \<Rightarrow> [(argv, r)] | _ \<Rightarrow> []) es)"

definition hook_calls :: "event list \<Rightarrow> (string \<times> string) list" where
  "hook_calls es = concat (map (\<lambda>e. case e of Enter_git_commit v p \<Rightarrow> [(v, p)] | _ \<Rightarrow> []) es)"

definition printed :: "event list \<Rightarrow> message list" where
  "printed es = concat (map (\<lambda>e. case e of Print m \<Rightarrow> [m] | _ \<Rightarrow> []) es)"

definition announced :: "event list \<Rightarrow> string list" where
  "announced es = concat (map (\<lambda>m. case m of Msg_building_for p \<Rightarrow> [p] | _ \<Rightarrow> []) (printed es))"

definition modes :: "event list \<Rightarrow> message list" where
  "modes es = filter (\<lambda>m. m = Msg_building_platforms \<or> m = Msg_no_platform_commands) (printed es)"

text \<open>
  The platforms whose build command exited with status 0: each build command is counted for
  the platform announced last before it (\<open>cur\<close> when none was).
\<close>

fun succeeded :: "string \<Rightarrow> event list \<Rightarrow> string list" where
  "succeeded cur [] = []"
| "succeeded cur (Print (Msg_building_for p) # es) = succeeded p es"
| "succeeded cur (Build_run c rc # es) = (if rc = 0 then cur # succeeded cur es else succeeded cur es)"
| "succeeded cur (e # es) = succeeded cur es"

text \<open>The events that \<^verbatim>\<open>git_commit\<close> produces after the call marker.\<close>

fun commit_event :: "event \<Rightarrow> bool" where
  "commit_event (Git_run argv r) = True"
| "commit_event (Print Msg_manifest_not_found) = True"
| "commit_event (Print (Msg_committing m)) = True"
| "commit_event (Print Msg_committed) = True"
| "commit_event (Print (Msg_commit_failed rc)) = True"
| "commit_event e = False"

text \<open>The events that \<^verbatim>\<open>git_commit\<close> and \<^verbatim>\<open>execute_vcs_push_commands\<close> produce after the call marker.\<close>

fun hook_event :: "event \<Rightarrow> bool" where
  "hook_event (Git_run argv r) = True"
| "hook_event (Push_run c rc) = True"
| "hook_event (Print Msg_manifest_not_found) = True"
| "hook_event (Print (Msg_committing m)) = True"
| "hook_event (Print Msg_committed) = True"
| "hook_event (Print (Msg_commit_failed rc)) = True"
| "hook_event (Print (Msg_push_executing c)) = True"
| "hook_event (Print Msg_push_succeeded) = True"
| "hook_event (Print (Msg_push_failed rc)) = True"
| "hook_event e = False"

text \<open>The pairs of \<^verbatim>\<open>platform_build_commands\<close> whose command is not \<^verbatim>\<open>null\<close>, in the order of the mapping.\<close>

fun targets :: "(string \<times> string option) list \<Rightarrow> (string \<times> string) list" where
  "targets [] = []"
| "targets ((platform, None) # rest) = targets rest"
| "targets ((platform, Some command) # rest) = (platform, command) # targets rest"

text \<open>The three events of one push command.\<close>

definition push_report :: "string \<times> int \<Rightarrow> event list" where
  "push_report r = [Print (Msg_push_executing (fst r)), Push_run (fst r) (snd r),
                    Print (if snd r = 0 then Msg_push_succeeded else Msg_push_failed (snd r))]"

text \<open>The four events of one target of the loop over the platforms.\<close>

definition target_report :: "string \<Rightarrow> string \<Rightarrow> int \<Rightarrow> event list" where
  "target_report p c rc =
     [Print (Msg_building_for p), Print (Msg_executing c), Build_run c rc,
      Print (if rc = 0 then Msg_build_succeeded else Msg_build_failed rc)]"

text \<open>
  What the events \<open>es\<close> of the loop over \<open>cmds\<close> that ended with \<open>r\<close> look like: the build
  commands run are the commands that are not \<^verbatim>\<open>null\<close>, in order, up to the point where the loop
  stopped; each was announced under its platform; \<^verbatim>\<open>git_commit\<close> was called for exactly the
  platforms whose command exited with status 0; the loop ran to its end when it returned, and
  when it raised, the last command run had succeeded.
\<close>

definition loop_trace ::
  "string \<Rightarrow> (string \<times> string option) list \<Rightarrow> unit outcome \<Rightarrow> event list \<Rightarrow> bool" where
  "loop_trace v cmds r es \<longleftrightarrow>
     prefix (map fst (build_runs es)) (map snd (targets cmds)) \<and>
     announced es = take (length (build_runs es)) (map fst (targets cmds)) \<and>
     (\<forall>cur. hook_calls es = map (Pair v) (succeeded cur es)) \<and>
     modes es = [] \<and>
     (r = Returned () \<longrightarrow> map fst (build_runs es) = map snd (targets cmds)) \<and>
     (\<forall>e. r = Raised e \<longrightarrow> build_runs es \<noteq> [] \<and> snd (last (build_runs es)) = 0)"

text \<open>
  Whether one pass of the cleaning loop over the location \<open>p\<close> ends without an exception: a
  regular file or a symbolic link that the system lets delete, an empty directory that the
  system lets delete, or nothing at all (then neither branch runs).
\<close>

definition clean_succeeds :: "env \<Rightarrow> state \<Rightarrow> string list \<Rightarrow> bool" where
  "clean_succeeds E st p =
     (case lookup (fs st) p of
        None \<Rightarrow> True
      | Some (File _) \<Rightarrow> \<not> denied E p
      | Some Symlink \<Rightarrow> \<not> denied E p
      | Some (Dir es) \<Rightarrow> es = [] \<and> \<not> denied E p)"

text \<open>The events of the cleaning.\<close>

fun clean_event :: "event \<Rightarrow> bool" where
  "clean_event (Print (Msg_cleaning d)) = True"
| "clean_event (Print (Msg_deleted d f)) = True"
| "clean_event (Print (Msg_delete_failed d f)) = True"
| "clean_event e = False"

text \<open>The line that one pass of the cleaning loop prints.\<close>

definition clean_report :: "env \<Rightarrow> state \<Rightarrow> string \<Rightarrow> string \<Rightarrow> message" where
  "clean_report E st output_dir filename =
     (if clean_succeeds E st (locate E (cwd st) output_dir @ [filename])
      then Msg_deleted output_dir filename else Msg_delete_failed output_dir filename)"

text \<open>The four events of the build in custom-command mode.\<close>

definition custom_report :: "string \<Rightarrow> int \<Rightarrow> event list" where
  "custom_report c rc =
     [Print Msg_no_platform_commands, Print (Msg_executing c), Build_run c rc,
      Print (if rc = 0 then Msg_build_succeeded else Msg_build_failed rc)]"

subsection \<open>A project to run the program on\<close>

text \<open>
  A manifest with three platforms, one of them \<^verbatim>\<open>null\<close> and one whose command fails; an
  environment in which \<^verbatim>\<open>push1\<close> and \<^verbatim>\<open>false\<close> fail, \<^verbatim>\<open>git add\<close> succeeds and \<^verbatim>\<open>git commit\<close>
  exits with status 1, and one file of the output directory cannot be deleted; and a project
  directory with a manifest and an output directory.
\<close>

definition demo_config :: config where
  "demo_config =
     \<lparr>project_name = ''demo'',
      versioning = \<lparr>auto_increment = True, increment_type = ''patch'', current_version = ''1.0.0''\<rparr>,
      build = \<lparr>custom_build_command = Some ''echo build'',
               platform_build_commands =
                 [(''windows'', Some ''echo win''), (''linux'', None), (''macos'', Some ''false'')],
               output_directory = ''builds'', clean_before_build = Some True\<rparr>,
      git_integration = \<lparr>repo_name = ''demo'', branch = ''main'', auto_commit = True,
               commit_message_template = ''Release {version} for {platform}'',
               vcs_push_command = [''push1'', ''push2'']\<rparr>\<rparr>"

definition demo_env :: env where
  "demo_env =
     \<lparr>sh = (\<lambda>t d c f. (if c = ''push1'' \<or> c = ''false'' then 1 else 0, f)),
      git = (\<lambda>t d argv f. (if argv = [''git'', ''add'', ''.''] then Exited 0 else Exited 1, f)),
      locate = (\<lambda>d p. d @ [p]),
      denied = (\<lambda>p. p = [''builds'', ''locked.o'']),
      format_complex = (\<lambda>t v p. Raised FormatError),
      py_strip = (\<lambda>s. rev (dropWhile (\<lambda>c. c = CHR '' '') (rev (dropWhile (\<lambda>c. c = CHR '' '') s))))\<rparr>"

definition demo_state :: "config \<Rightarrow> state" where
  "demo_state c =
     \<lparr>cwd = [],
      fs = Dir [(''.birb'', Dir [(''birb.json'', File (Manifest_json c))]),
                (''builds'', Dir [(''a.o'', File Other_content),
                                 (''sub'', Dir [(''b.o'', File Other_content)]),
                                 (''empty'', Dir []),
                                 (''link'', Symlink),
                                 (''locked.o'', File Other_content)])],
      clock = 0, out = []\<rparr>"

definition all_null :: "config \<Rightarrow> config" where
  "all_null c =
     c\<lparr>build := (build c)\<lparr>platform_build_commands :=
                     [(''windows'', None), (''linux'', None), (''macos'', None)]\<rparr>\<rparr>"

definition with_custom_entry :: "config \<Rightarrow> config" where
  "with_custom_entry c =
     c\<lparr>build := (build c)\<lparr>platform_build_commands :=
                     [(''windows'', Some ''build_script.windows.sh''), (''linux'', None),
                      (''macos'', None), (''custom'', Some ''make build'')]\<rparr>\<rparr>"

text \<open>A text without braces: \<^verbatim>\<open>str.format\<close> copies it as it is.\<close>

definition brace_free :: "string \<Rightarrow> bool" where
  "brace_free s = (CHR ''{'' \<notin> set s \<and> CHR ''}'' \<notin> set s)"

text \<open>Variants of the project: another template, no project at all, \<^verbatim>\<open>auto_commit\<close> off.\<close>

definition platform_first :: "config \<Rightarrow> config" where
  "platform_first c =
     c\<lparr>git_integration := (git_integration c)\<lparr>commit_message_template :=
                               ''[{platform}] release {version}''\<rparr>\<rparr>"

definition empty_project :: state where
  "empty_project = \<lparr>cwd = [], fs = Dir [], clock = 0, out = []\<rparr>"

definition no_auto_commit :: "config \<Rightarrow> config" where
  "no_auto_commit c = c\<lparr>git_integration := (git_integration c)\<lparr>auto_commit := False\<rparr>\<rparr>"

text \<open>
  The commands that the run starts leave what is at the location \<open>q\<close> as it is: whatever a
  shell command or \<^verbatim>\<open>git\<close> does to the file system, a lookup of \<open>q\<close> gives the same after it.
\<close>

definition commands_keep :: "env \<Rightarrow> string list \<Rightarrow> bool" where
  "commands_keep E q \<longleftrightarrow>
     (\<forall>t d c f. lookup (snd (sh E t d c f)) q = lookup f q) \<and>
     (\<forall>t d a f. lookup (snd (git E t d a f)) q = lookup f q)"

text \<open>The project with the directory of the manifest as its output directory.\<close>

definition cleans_own_directory :: "config \<Rightarrow> config" where
  "cleans_own_directory c = c\<lparr>build := (build c)\<lparr>output_directory := ''.birb''\<rparr>\<rparr>"

text \<open>
  The answers of a user who types \<^verbatim>\<open>null\<close> for every platform and accepts every default, and
  the manifest that \<^verbatim>\<open>interactive_create\<close> writes for them.
\<close>

definition demo_answers :: "string list" where
  "demo_answers =
     [''demo'', ''1.0.0'', ''null'', ''null'', ''null'', [], [], ''n'', ''demo'', [], []]"

definition created_config :: config where
  "created_config =
     \<lparr>project_name = ''demo'',
      versioning = \<lparr>auto_increment = True, increment_type = ''patch'', current_version = ''1.0.0''\<rparr>,
      build = \<lparr>custom_build_command = Some ''make build'',
               platform_build_commands =
                 [(''windows'', None), (''linux'', None), (''macos'', None),
                  (''custom'', Some ''make build'')],
               output_directory = ''./builds'', clean_before_build = Some False\<rparr>,
      git_integration = \<lparr>repo_name = ''demo'', branch = ''main'', auto_commit = True,
               commit_message_template = ''Release {version} for {platform}'',
               vcs_push_command = []\<rparr>\<rparr>"

text \<open>
  What running the commands \<open>cmds\<close> one after the other through the shell gives, from the
  process count \<open>t\<close>, in the directory \<open>d\<close>, on the file system \<open>f\<close>: each command with the exit
  status the shell gives it on the file system the commands before it have left, and the file
  system after the last one.
\<close>

fun sh_results :: "env \<Rightarrow> nat \<Rightarrow> string list \<Rightarrow> string list \<Rightarrow> node \<Rightarrow> (string \<times> int) list" where
  "sh_results E t d [] f = []"
| "sh_results E t d (command # rest) f =
     (command, fst (sh E t d command f)) # sh_results E (Suc t) d rest (snd (sh E t d command f))"

fun sh_fs :: "env \<Rightarrow> nat \<Rightarrow> string list \<Rightarrow> string list \<Rightarrow> node \<Rightarrow> node" where
  "sh_fs E t d [] f = f"
| "sh_fs E t d (command # rest) f = sh_fs E (Suc t) d rest (snd (sh E t d command f))"


section \<open>Basic facts\<close>

lemma out_emit [simp]: "out (emit e st) = out st @ [e]"
  and fs_emit [simp]: "fs (emit e st) = fs st"
  and cwd_emit [simp]: "cwd (emit e st) = cwd st"
  and clock_emit [simp]: "clock (emit e st) = clock st"
  by (simp_all add: emit_def)

lemma out_print [simp]: "out (print m st) = out st @ [Print m]"
  and fs_print [simp]: "fs (print m st) = fs st"
  and cwd_print [simp]: "cwd (print m st) = cwd st"
  and clock_print [simp]: "clock (print m st) = clock st"
  by (simp_all add: print_def)

lemma run_shell_fields [simp]:
  "out (snd (run_shell E c st)) = out st"
  "cwd (snd (run_shell E c st)) = cwd st"
  "clock (snd (run_shell E c st)) = Suc (clock st)"
  "fs (snd (run_shell E c st)) = snd (sh E (clock st) (cwd st) c (fs st))"
  "fst (run_shell E c st) = fst (sh E (clock st) (cwd st) c (fs st))"
  by (simp_all add: run_shell_def split: prod.splits)

lemma run_git_fields [simp]:
  "out (snd (run_git E a st)) = out st @ [Git_run a (fst (git E (clock st) (cwd st) a (fs st)))]"
  "cwd (snd (run_git E a st)) = cwd st"
  "clock (snd (run_git E a st)) = Suc (clock st)"
  "fs (snd (run_git E a st)) = snd (git E (clock st) (cwd st) a (fs st))"
  "fst (run_git E a st) = fst (git E (clock st) (cwd st) a (fs st))"
  by (simp_all add: run_git_def split: prod.splits)

lemma execute_build_command_out:
  "out (snd (execute_build_command E c st)) =
     out st @ [Print (Msg_executing c),
               Build_run c (fst (sh E (clock st) (cwd st) c (fs st))),
               Print (if fst (sh E (clock st) (cwd st) c (fs st)) = 0 then Msg_build_succeeded
                      else Msg_build_failed (fst (sh E (clock st) (cwd st) c (fs st))))]"
  by (simp add: execute_build_command_def Let_def split_beta)

lemma execute_build_command_fst:
  "fst (execute_build_command E c st) = (fst (sh E (clock st) (cwd st) c (fs st)) = 0)"
  by (simp add: execute_build_command_def Let_def split_beta)

lemma execute_build_command_fields [simp]:
  "cwd (snd (execute_build_command E c st)) = cwd st"
  "fs (snd (execute_build_command E c st)) = snd (sh E (clock st) (cwd st) c (fs st))"
  "clock (snd (execute_build_command E c st)) = Suc (clock st)"
  by (simp_all add: execute_build_command_def Let_def split_beta)

lemma projections_append [simp]:
  "build_runs (xs @ ys) = build_runs xs @ build_runs ys"
  "push_runs (xs @ ys) = push_runs xs @ push_runs ys"
  "git_runs (xs @ ys) = git_runs xs @ git_runs ys"
  "hook_calls (xs @ ys) = hook_calls xs @ hook_calls ys"
  "printed (xs @ ys) = printed xs @ printed ys"
  "announced (xs @ ys) = announced xs @ announced ys"
  "modes (xs @ ys) = modes xs @ modes ys"
  by (simp_all add: build_runs_def push_runs_def git_runs_def hook_calls_def printed_def
        announced_def modes_def)

lemma projections_Nil [simp]:
  "build_runs [] = []" "push_runs [] = []" "git_runs [] = []" "hook_calls [] = []"
  "printed [] = []" "announced [] = []" "modes [] = []"
  by (simp_all add: build_runs_def push_runs_def git_runs_def hook_calls_def printed_def
        announced_def modes_def)

lemma projections_Cons:
  "build_runs (e # es) = (case e of Build_run c rc \<Rightarrow> [(c, rc)] | _ \<Rightarrow> []) @ build_runs es"
  "push_runs (e # es) = (case e of Push_run c rc \<Rightarrow> [(c, rc)] | _ \<Rightarrow> []) @ push_runs es"
  "git_runs (e # es) = (case e of Git_run a r \<Rightarrow> [(a, r)] | _ \<Rightarrow> []) @ git_runs es"
  "hook_calls (e # es) = (case e of Enter_git_commit v p \<Rightarrow> [(v, p)] | _ \<Rightarrow> []) @ hook_calls es"
  "printed (e # es) = (case e of Print m \<Rightarrow> [m] | _ \<Rightarrow> []) @ printed es"
  by (simp_all add: build_runs_def push_runs_def git_runs_def hook_calls_def printed_def)

lemma announced_Cons:
  "announced (e # es) =
     (case e of Print (Msg_building_for p) \<Rightarrow> [p] | _ \<Rightarrow> []) @ announced es"
  by (simp add: announced_def printed_def split: event.splits message.splits)

lemma modes_Cons:
  "modes (e # es) =
     (if e = Print Msg_building_platforms \<or> e = Print Msg_no_platform_commands
      then (case e of Print m \<Rightarrow> [m] | _ \<Rightarrow> []) else []) @ modes es"
  by (auto simp add: modes_def printed_def split: event.splits)

lemma hook_event_quiet:
  assumes "hook_event e"
  shows "build_runs (e # es) = build_runs es" "hook_calls (e # es) = hook_calls es"
    "announced (e # es) = announced es" "modes (e # es) = modes es"
    "succeeded cur (e # es) = succeeded cur es"
  using assms by (cases e rule: hook_event.cases; simp add: projections_Cons announced_Cons modes_Cons)+

lemma hook_events_quiet:
  assumes "list_all hook_event es"
  shows "build_runs (es @ ys) = build_runs ys" "hook_calls (es @ ys) = hook_calls ys"
    "announced (es @ ys) = announced ys" "modes (es @ ys) = modes ys"
    "succeeded cur (es @ ys) = succeeded cur ys"
  using assms by (induction es; simp add: hook_event_quiet del: projections_append)+

lemma lookup_append:
  "lookup t (p @ q) = (case lookup t p of None \<Rightarrow> None | Some n \<Rightarrow> lookup n q)"
  by (induction t p rule: lookup.induct) (simp_all split: option.splits)

lemma lookup_child_dir:
  assumes "lookup t (p @ c # q) = Some x"
  shows "\<exists>es. lookup t p = Some (Dir es) \<and> es \<noteq> []"
proof -
  from assms obtain n where n: "lookup t p = Some n" and x: "lookup n (c # q) = Some x"
    by (auto simp: lookup_append split: option.splits)
  from x show ?thesis using n by (cases n) (auto split: option.splits)
qed

lemma load_birb_json_fields [simp]:
  "cwd (snd (load_birb_json st)) = cwd st"
  "fs (snd (load_birb_json st)) = fs st"
  "clock (snd (load_birb_json st)) = clock st"
  by (simp_all add: load_birb_json_def split: option.splits node.splits file_content.splits)

lemma load_birb_json_Some:
  "load_birb_json st = (Returned (Some config), st') \<longleftrightarrow>
     lookup (fs st) (cwd st @ BIRB_CONFIG_FILE) = Some (File (Manifest_json config)) \<and> st' = st"
  by (auto simp: load_birb_json_def path_exists_def split: option.splits node.splits file_content.splits)

lemma load_birb_json_None:
  "load_birb_json st = (Returned None, st') \<longleftrightarrow>
     (lookup (fs st) (cwd st @ BIRB_CONFIG_FILE) = None \<or> lookup (fs st) (cwd st @ BIRB_CONFIG_FILE) = Some Symlink)
     \<and> st' = print Msg_manifest_not_found st"
  by (auto simp: load_birb_json_def path_exists_def split: option.splits node.splits file_content.splits)

lemma load_birb_json_Raised:
  "load_birb_json st = (Raised e, st') \<Longrightarrow> st' = st"
  by (auto simp: load_birb_json_def path_exists_def split: option.splits node.splits file_content.splits if_splits)

lemma manifest_dir:
  assumes "lookup (fs st) (cwd st @ BIRB_CONFIG_FILE) = Some x"
  shows "path_isdir st (cwd st @ [BIRB_DIR])"
proof -
  have "lookup (fs st) ((cwd st @ [BIRB_DIR]) @ ''birb.json'' # []) = Some x"
    using assms by (simp add: BIRB_CONFIG_FILE_def)
  from lookup_child_dir [OF this] show ?thesis by (auto simp: path_isdir_def)
qed

lemma os_chdir_up [simp]:
  "cwd (snd (os_chdir ''..'' st)) = butlast (cwd st)"
  "fs (snd (os_chdir ''..'' st)) = fs st"
  "out (snd (os_chdir ''..'' st)) = out st"
  "clock (snd (os_chdir ''..'' st)) = clock st"
  by (simp_all add: os_chdir_def)

lemma os_chdir_fields [simp]:
  "fs (snd (os_chdir d st)) = fs st"
  "out (snd (os_chdir d st)) = out st"
  "clock (snd (os_chdir d st)) = clock st"
  by (simp_all add: os_chdir_def)

lemma os_chdir_BIRB_DIR:
  "path_isdir st (cwd st @ [BIRB_DIR]) \<Longrightarrow> os_chdir BIRB_DIR st = (Returned (), st\<lparr>cwd := cwd st @ [BIRB_DIR]\<rparr>)"
  by (simp add: os_chdir_def BIRB_DIR_def)

lemma git_commit_try_cwd:
  assumes "path_isdir st (cwd st @ [BIRB_DIR])"
  shows "cwd (snd (git_commit_try E m st)) = cwd st @ [BIRB_DIR]"
  using assms
  by (simp add: git_commit_try_def os_chdir_BIRB_DIR split: prod.splits spawn.splits)
     (auto simp: run_git_def split: prod.splits)

lemma git_commit_cwd: "cwd (snd (git_commit E version platform st)) = cwd st"
proof (cases "load_birb_json (emit (Enter_git_commit version platform) st)")
  case (Pair r st1)
  have c1: "cwd st1 = cwd st"
    using load_birb_json_fields(1) [of "emit (Enter_git_commit version platform) st"] Pair by simp
  show ?thesis
  proof (cases r)
    case (Raised e)
    with Pair c1 show ?thesis by (simp add: git_commit_def)
  next
    case (Returned c)
    show ?thesis
    proof (cases c)
      case None
      with Pair Returned c1 show ?thesis by (simp add: git_commit_def)
    next
      case (Some config)
      with Pair Returned have l: "lookup (fs st) (cwd st @ BIRB_CONFIG_FILE) = Some (File (Manifest_json config))"
        by (auto simp: load_birb_json_Some)
      have f1: "fs st1 = fs st"
        using load_birb_json_fields(2) [of "emit (Enter_git_commit version platform) st"] Pair by simp
      have d: "path_isdir (print m st1) (cwd (print m st1) @ [BIRB_DIR])" for m
        using manifest_dir [of "print m st1"] l c1 f1 by simp
      show ?thesis
        using Pair Returned Some c1 git_commit_try_cwd [OF d, of E]
        by (simp add: git_commit_def split_beta split: outcome.splits)
    qed
  qed
qed

lemma execute_vcs_push_commands_cwd:
  "cwd (execute_vcs_push_commands E cmds st) = cwd st"
  by (induction cmds arbitrary: st) (simp_all add: Let_def split_beta)

lemma git_commit_try_out:
  "\<exists>es. out (snd (git_commit_try E m st)) = out st @ es \<and> list_all commit_event es"
  by (simp add: git_commit_try_def split_beta split: outcome.splits spawn.splits)

lemma load_birb_json_out:
  "out (snd (load_birb_json st)) = out st \<or> out (snd (load_birb_json st)) = out st @ [Print Msg_manifest_not_found]"
  by (simp add: load_birb_json_def split: option.splits node.splits file_content.splits)

lemma git_commit_out:
  "\<exists>es. out (snd (git_commit E version platform st)) = out st @ Enter_git_commit version platform # es
        \<and> list_all commit_event es"
proof (cases "load_birb_json (emit (Enter_git_commit version platform) st)")
  case (Pair r st1)
  have o1: "out st1 = out st @ [Enter_git_commit version platform] \<or>
            out st1 = out st @ [Enter_git_commit version platform, Print Msg_manifest_not_found]"
    using load_birb_json_out [of "emit (Enter_git_commit version platform) st"] Pair by simp
  have base: "\<exists>es. out st1 = out st @ Enter_git_commit version platform # es \<and> list_all commit_event es"
    using o1 by auto
  show ?thesis
  proof (cases "\<exists>config m. r = Returned (Some config) \<and> auto_commit (git_integration config)
                  \<and> format_template E (commit_message_template (git_integration config)) version platform = Returned m")
    case False
    then have "snd (git_commit E version platform st) = st1"
      using Pair by (auto simp: git_commit_def split: outcome.splits option.splits)
    with base show ?thesis by simp
  next
    case True
    then obtain config m where r: "r = Returned (Some config)" and a: "auto_commit (git_integration config)"
      and m: "format_template E (commit_message_template (git_integration config)) version platform = Returned m"
      by blast
    have o: "out st1 = out st @ [Enter_git_commit version platform]"
      using Pair r by (auto simp: load_birb_json_Some)
    obtain es where es: "out (snd (git_commit_try E m (print (Msg_committing m) st1))) =
        out (print (Msg_committing m) st1) @ es" "list_all commit_event es"
      using git_commit_try_out by blast
    have "out (snd (git_commit E version platform st)) =
            out st @ Enter_git_commit version platform # (Print (Msg_committing m) # es)"
      using Pair r a m es(1) o by (simp add: git_commit_def split_beta)
    moreover have "list_all commit_event (Print (Msg_committing m) # es)"
      using es(2) by simp
    ultimately show ?thesis by blast
  qed
qed

lemma commit_event_hook: "commit_event e \<Longrightarrow> hook_event e"
  by (cases e rule: commit_event.cases) simp_all

lemma commit_events_hook: "list_all commit_event es \<Longrightarrow> list_all hook_event es"
  by (induction es) (simp_all add: commit_event_hook)

lemma commit_events_no_push: "list_all commit_event es \<Longrightarrow> push_runs es = []"
proof (induction es)
  case Nil
  show ?case by simp
next
  case (Cons e es)
  then show ?case by (cases e rule: commit_event.cases) (simp_all add: projections_Cons)
qed

lemma execute_vcs_push_commands_out:
  "\<exists>rcs. length rcs = length cmds \<and>
         out (execute_vcs_push_commands E cmds st) = out st @ concat (map push_report (zip cmds rcs))"
proof (induction cmds arbitrary: st)
  case Nil
  then show ?case by simp
next
  case (Cons c cmds)
  let ?rc = "fst (sh E (clock st) (cwd st) c (fs st))"
  let ?st = "(if ?rc = 0 then print Msg_push_succeeded else print (Msg_push_failed ?rc))
               (emit (Push_run c ?rc) (snd (run_shell E c (print (Msg_push_executing c) st))))"
  have step: "execute_vcs_push_commands E (c # cmds) st = execute_vcs_push_commands E cmds ?st"
    by (simp add: Let_def split_beta)
  from Cons.IH [of ?st] obtain rcs where rcs: "length rcs = length cmds"
    "out (execute_vcs_push_commands E cmds ?st) = out ?st @ concat (map push_report (zip cmds rcs))"
    by blast
  have "out ?st = out st @ push_report (c, ?rc)"
    by (simp add: push_report_def)
  with rcs step have "length (?rc # rcs) = length (c # cmds) \<and>
     out (execute_vcs_push_commands E (c # cmds) st) = out st @ concat (map push_report (zip (c # cmds) (?rc # rcs)))"
    by simp
  then show ?case by blast
qed

lemma push_runs_report [simp]: "push_runs (push_report r) = [r]"
  by (simp add: push_report_def push_runs_def)

lemma push_runs_reports [simp]: "push_runs (concat (map push_report rs)) = rs"
  by (induction rs) simp_all

lemma hook_event_reports: "list_all hook_event (concat (map push_report rs))"
  by (induction rs) (simp_all add: push_report_def)

lemma commit_and_push_out:
  "\<exists>es. out (snd (commit_and_push E config platform st)) =
          out st @ Enter_git_commit (current_version (versioning config)) platform # es
        \<and> list_all hook_event es"
proof -
  let ?v = "current_version (versioning config)"
  obtain es where es: "out (snd (git_commit E ?v platform st)) = out st @ Enter_git_commit ?v platform # es"
    "list_all hook_event es"
    using git_commit_out commit_events_hook by blast
  show ?thesis
  proof (cases "git_commit E ?v platform st")
    case (Pair r st1)
    show ?thesis
    proof (cases r)
      case (Raised e)
      with Pair es show ?thesis by (auto simp: commit_and_push_def)
    next
      case (Returned u)
      obtain rcs where "out (execute_vcs_push_commands E (vcs_push_command (git_integration config)) st1) =
          out st1 @ concat (map push_report (zip (vcs_push_command (git_integration config)) rcs))"
        using execute_vcs_push_commands_out by blast
      with Pair Returned es hook_event_reports show ?thesis
        by (auto simp: commit_and_push_def)
    qed
  qed
qed

lemma target_report_proj [simp]:
  "build_runs (target_report p c rc) = [(c, rc)]"
  "announced (target_report p c rc) = [p]"
  "hook_calls (target_report p c rc) = []"
  "modes (target_report p c rc) = []"
  "succeeded cur (target_report p c rc @ es) = (if rc = 0 then p # succeeded p es else succeeded p es)"
  by (simp_all add: target_report_def projections_Cons announced_Cons modes_Cons del: projections_append)

lemma enter_proj [simp]:
  "build_runs (Enter_git_commit v p # es) = build_runs es"
  "announced (Enter_git_commit v p # es) = announced es"
  "hook_calls (Enter_git_commit v p # es) = (v, p) # hook_calls es"
  "modes (Enter_git_commit v p # es) = modes es"
  by (simp_all add: projections_Cons announced_Cons modes_Cons)

lemma hook_events_silent:
  assumes "list_all hook_event es"
  shows "build_runs es = []" "hook_calls es = []" "announced es = []" "modes es = []"
    "succeeded cur es = []"
  using hook_events_quiet [OF assms, where ys = "[]"] by simp_all

lemma loop_trace_Nil: "loop_trace v [] (Returned ()) []"
  by (simp add: loop_trace_def)

lemma loop_trace_skip: "loop_trace v rest r es \<Longrightarrow> loop_trace v ((p, None) # rest) r es"
  by (simp add: loop_trace_def)

lemma loop_trace_failed:
  assumes "loop_trace v rest r es" and "rc \<noteq> 0"
  shows "loop_trace v ((p, Some c) # rest) r (target_report p c rc @ es)"
  using assms by (auto simp: loop_trace_def)

lemma loop_trace_ok:
  assumes "loop_trace v rest r es" and "list_all hook_event hes"
  shows "loop_trace v ((p, Some c) # rest) r (target_report p c 0 @ Enter_git_commit v p # hes @ es)"
  using assms by (auto simp: loop_trace_def hook_events_quiet(5) hook_events_silent)

lemma loop_trace_raised:
  assumes "list_all hook_event hes"
  shows "loop_trace v ((p, Some c) # rest) (Raised e) (target_report p c 0 @ Enter_git_commit v p # hes)"
  using assms by (simp add: loop_trace_def hook_events_silent)

lemma execute_build_command_report:
  "out (snd (execute_build_command E c (print (Msg_building_for p) st))) =
     out st @ target_report p c (fst (sh E (clock st) (cwd st) c (fs st)))"
  by (simp add: execute_build_command_out target_report_def)

lemma build_platforms_out:
  "\<exists>es. out (snd (build_platforms E config cmds st)) = out st @ es \<and>
        loop_trace (current_version (versioning config)) cmds (fst (build_platforms E config cmds st)) es"
proof (induction cmds arbitrary: st)
  case Nil
  show ?case by (simp add: loop_trace_Nil)
next
  case (Cons pc rest)
  let ?v = "current_version (versioning config)"
  obtain p c where pc: "pc = (p, c)" by (cases pc)
  show ?case
  proof (cases c)
    case None
    from Cons.IH [of st] obtain es where
      "out (snd (build_platforms E config rest st)) = out st @ es"
      "loop_trace ?v rest (fst (build_platforms E config rest st)) es" by blast
    then show ?thesis using pc None by (auto intro: loop_trace_skip)
  next
    case (Some command)
    let ?rc = "fst (sh E (clock st) (cwd st) command (fs st))"
    let ?b = "execute_build_command E command (print (Msg_building_for p) st)"
    obtain ok st1 where b: "?b = (ok, st1)" by (cases ?b)
    have ok: "ok = (?rc = 0)"
      using execute_build_command_fst [of E command "print (Msg_building_for p) st"] b by simp
    have o1: "out st1 = out st @ target_report p command ?rc"
      using execute_build_command_report [of E command p st] b by simp
    show ?thesis
    proof (cases ok)
      case False
      from Cons.IH [of st1] obtain es where es:
        "out (snd (build_platforms E config rest st1)) = out st1 @ es"
        "loop_trace ?v rest (fst (build_platforms E config rest st1)) es" by blast
      have eq: "build_platforms E config (pc # rest) st = build_platforms E config rest st1"
        using pc Some b False by simp
      have "loop_trace ?v (pc # rest) (fst (build_platforms E config rest st1)) (target_report p command ?rc @ es)"
        using loop_trace_failed [OF es(2), of ?rc p command] False ok pc Some by simp
      with es(1) o1 eq show ?thesis by auto
    next
      case True
      then have rc: "?rc = 0" using ok by simp
      obtain r2 st2 where h: "commit_and_push E config p st1 = (r2, st2)"
        by (cases "commit_and_push E config p st1")
      obtain hes where hes: "out st2 = out st1 @ Enter_git_commit ?v p # hes" "list_all hook_event hes"
        using commit_and_push_out [of E config p st1] h by auto
      show ?thesis
      proof (cases r2)
        case (Raised e)
        have eq: "build_platforms E config (pc # rest) st = (Raised e, st2)"
          using pc Some b True h Raised by simp
        have "loop_trace ?v (pc # rest) (Raised e) (target_report p command 0 @ Enter_git_commit ?v p # hes)"
          using loop_trace_raised [OF hes(2)] pc Some by simp
        with eq hes(1) o1 rc show ?thesis by auto
      next
        case (Returned u)
        from Cons.IH [of st2] obtain es where es:
          "out (snd (build_platforms E config rest st2)) = out st2 @ es"
          "loop_trace ?v rest (fst (build_platforms E config rest st2)) es" by blast
        have eq: "build_platforms E config (pc # rest) st = build_platforms E config rest st2"
          using pc Some b True h Returned by simp
        have "loop_trace ?v (pc # rest) (fst (build_platforms E config rest st2))
                (target_report p command 0 @ Enter_git_commit ?v p # hes @ es)"
          using loop_trace_ok [OF es(2) hes(2)] pc Some by simp
        with eq es(1) hes(1) o1 rc show ?thesis by auto
      qed
    qed
  qed
qed

lemma map_of_filter_fst:
  "map_of (filter (\<lambda>e. fst e \<noteq> c) es) k = (if k = c then None else map_of es k)"
  by (induction es) auto

lemma map_of_map_fst:
  "map_of (map (\<lambda>e. if fst e = c then (fst e, f (snd e)) else e) es) k =
     (if k = c then map_option f (map_of es c) else map_of es k)"
  by (induction es) auto

lemma lookup_remove_at:
  "p \<noteq> [] \<Longrightarrow> \<not> strict_prefix q p \<Longrightarrow>
     lookup (remove_at t p) q = (if prefix p q then None else lookup t q)"
proof (induction t p arbitrary: q rule: remove_at.induct)
  case (1 n)
  then show ?case by simp
next
  case (2 es c)
  then show ?case
    by (cases q) (simp_all add: map_of_filter_fst)
next
  case (3 es c d cs)
  note mm = map_of_map_fst [where f = "\<lambda>n. remove_at n (d # cs)" and c = c and es = es]
  show ?case
  proof (cases q)
    case Nil
    with "3.prems" show ?thesis by simp
  next
    case (Cons k ks)
    show ?thesis
    proof (cases "k = c")
      case False
      with Cons show ?thesis by (simp add: mm)
    next
      case True
      show ?thesis
      proof (cases "map_of es c")
        case None
        with Cons True show ?thesis by (simp add: mm)
      next
        case (Some n)
        then have "(c, n) \<in> set es" by (rule map_of_SomeD)
        moreover have "\<not> strict_prefix ks (d # cs)"
          using "3.prems"(2) Cons True by simp
        ultimately have
          "lookup (remove_at n (d # cs)) ks = (if prefix (d # cs) ks then None else lookup n ks)"
          using "3.IH" [of "(c, n)" ks] by simp
        with Cons True Some show ?thesis by (simp add: mm)
      qed
    qed
  qed
next
  case (4 x c cs)
  then show ?case by (cases q) auto
next
  case (5 c cs)
  then show ?case by (cases q) auto
qed

lemma lookup_None_prefix:
  "lookup t p = None \<Longrightarrow> prefix p q \<Longrightarrow> lookup t q = None"
  by (auto simp: prefix_def lookup_append)

lemma emitted_append: "out st' = out st @ es \<Longrightarrow> emitted st st' = es"
  by (simp add: emitted_def)

lemma clean_entry_cwd [simp]: "cwd (clean_entry E od n st) = cwd st"
  by (simp add: clean_entry_def Let_def os_unlink_def os_rmdir_def split_beta
      split: option.splits node.splits list.splits outcome.splits)

lemma clean_entry_out:
  "out (clean_entry E od n st) = out st @ [Print (clean_report E st od n)]"
  by (simp add: clean_entry_def clean_report_def clean_succeeds_def Let_def os_unlink_def os_rmdir_def
      path_isfile_def path_islink_def path_isdir_def
      split: option.splits node.splits list.splits)

lemma clean_entry_lookup:
  assumes "\<not> strict_prefix q (locate E (cwd st) od @ [n])"
  shows "lookup (fs (clean_entry E od n st)) q =
     (if clean_succeeds E st (locate E (cwd st) od @ [n]) \<and> prefix (locate E (cwd st) od @ [n]) q
      then None else lookup (fs st) q)"
proof -
  let ?p = "locate E (cwd st) od @ [n]"
  have r: "lookup (remove_at (fs st) ?p) q = (if prefix ?p q then None else lookup (fs st) q)"
    using lookup_remove_at [of ?p q "fs st"] assms by simp
  show ?thesis
  proof (cases "lookup (fs st) ?p")
    case None
    then have "fs (clean_entry E od n st) = fs st"
      by (simp add: clean_entry_def Let_def path_isfile_def path_islink_def path_isdir_def)
    moreover have "prefix ?p q \<Longrightarrow> lookup (fs st) q = None"
      using None by (rule lookup_None_prefix)
    ultimately show ?thesis by auto
  next
    case (Some x)
    then show ?thesis using r
      by (cases x)
         (auto simp: clean_entry_def clean_succeeds_def Let_def os_unlink_def os_rmdir_def
            path_isfile_def path_islink_def path_isdir_def split: list.splits)
  qed
qed

lemma clean_succeeds_cong:
  "lookup (fs st1) p = lookup (fs st) p \<Longrightarrow> clean_succeeds E st1 p = clean_succeeds E st p"
  by (simp add: clean_succeeds_def)

lemma clean_entry_succeeds:
  "clean_succeeds E (clean_entry E od n st) (locate E (cwd st) od @ [m]) =
   clean_succeeds E st (locate E (cwd st) od @ [m])"
proof -
  let ?d = "locate E (cwd st) od"
  have l: "lookup (fs (clean_entry E od n st)) (?d @ [m]) =
     (if clean_succeeds E st (?d @ [n]) \<and> n = m then None else lookup (fs st) (?d @ [m]))"
    using clean_entry_lookup [of "?d @ [m]" E st od n] by (simp add: strict_prefix_def)
  show ?thesis
  proof (cases "clean_succeeds E st (?d @ [n]) \<and> n = m")
    case True
    with l show ?thesis by (simp add: clean_succeeds_def)
  next
    case False
    with l have "lookup (fs (clean_entry E od n st)) (?d @ [m]) = lookup (fs st) (?d @ [m])"
      by auto
    then show ?thesis by (rule clean_succeeds_cong)
  qed
qed

lemma clean_report_entry:
  "clean_report E (clean_entry E od n st) od m = clean_report E st od m"
  by (simp add: clean_report_def clean_entry_succeeds)

lemma clean_entries_cwd [simp]: "cwd (clean_entries E od ns st) = cwd st"
  by (induction ns arbitrary: st) simp_all

lemma clean_entries_out:
  "out (clean_entries E od ns st) = out st @ map (\<lambda>n. Print (clean_report E st od n)) ns"
proof (induction ns arbitrary: st)
  case Nil
  show ?case by simp
next
  case (Cons n ns)
  show ?case
    by (simp add: Cons.IH clean_entry_out clean_report_entry)
qed

lemma clean_entries_lookup:
  assumes "\<not> prefix q (locate E (cwd st) od)"
  shows "lookup (fs (clean_entries E od ns st)) q =
     (if \<exists>n\<in>set ns. clean_succeeds E st (locate E (cwd st) od @ [n]) \<and> prefix (locate E (cwd st) od @ [n]) q
      then None else lookup (fs st) q)"
  using assms
proof (induction ns arbitrary: st)
  case Nil
  show ?case by simp
next
  case (Cons n ns)
  let ?d = "locate E (cwd st) od"
  let ?st1 = "clean_entry E od n st"
  have sp: "\<not> strict_prefix q (?d @ [n])"
    using Cons.prems by (auto simp: strict_prefix_def prefix_snoc)
  have l1: "lookup (fs ?st1) q =
     (if clean_succeeds E st (?d @ [n]) \<and> prefix (?d @ [n]) q then None else lookup (fs st) q)"
    using clean_entry_lookup [OF sp] .
  have "lookup (fs (clean_entries E od ns ?st1)) q =
     (if \<exists>m\<in>set ns. clean_succeeds E ?st1 (?d @ [m]) \<and> prefix (?d @ [m]) q
      then None else lookup (fs ?st1) q)"
    using Cons.IH [of ?st1] Cons.prems by simp
  then show ?case
    by (auto simp: l1 clean_entry_succeeds)
qed

lemma clean_old_builds_absent:
  "\<not> path_exists st (locate E (cwd st) output_dir) \<Longrightarrow> clean_old_builds E output_dir st = (Returned (), st)"
  by (simp add: clean_old_builds_def)

lemma clean_old_builds_dir:
  "lookup (fs st) (locate E (cwd st) output_dir) = Some (Dir es) \<Longrightarrow>
     clean_old_builds E output_dir st = (Returned (), clean_entries E output_dir (map fst es) st)"
  by (simp add: clean_old_builds_def path_exists_def os_listdir_def)

lemma clean_old_builds_file:
  "path_isfile st (locate E (cwd st) output_dir) \<Longrightarrow>
     clean_old_builds E output_dir st = (Raised OSError, st)"
  by (auto simp: clean_old_builds_def path_exists_def path_isfile_def os_listdir_def
      split: option.splits node.splits)

lemma clean_old_builds_cases:
  obtains "\<not> path_exists st (locate E (cwd st) output_dir)"
  | es where "lookup (fs st) (locate E (cwd st) output_dir) = Some (Dir es)"
  | "path_isfile st (locate E (cwd st) output_dir)"
proof (cases "lookup (fs st) (locate E (cwd st) output_dir)")
  case None
  then show ?thesis using that(1) by (simp add: path_exists_def)
next
  case (Some a)
  then show ?thesis using that
    by (cases a) (simp_all add: path_exists_def path_isfile_def)
qed

lemma clean_events_quiet:
  assumes "list_all clean_event es"
  shows "build_runs es = []" "hook_calls es = []" "announced es = []" "modes es = []"
    "push_runs es = []" "git_runs es = []"
  using assms
proof (induction es)
  case Nil
  { case 1 show ?case by simp next
    case 2 show ?case by simp next
    case 3 show ?case by simp next
    case 4 show ?case by simp next
    case 5 show ?case by simp next
    case 6 show ?case by simp }
next
  case (Cons e es)
  { case 1 then show ?case using Cons(1) by (cases e rule: clean_event.cases) (simp_all add: projections_Cons) next
    case 2 then show ?case using Cons(2) by (cases e rule: clean_event.cases) (simp_all add: projections_Cons) next
    case 3 then show ?case using Cons(3) by (cases e rule: clean_event.cases) (simp_all add: announced_Cons) next
    case 4 then show ?case using Cons(4) by (cases e rule: clean_event.cases) (simp_all add: modes_Cons) next
    case 5 then show ?case using Cons(5) by (cases e rule: clean_event.cases) (simp_all add: projections_Cons) next
    case 6 then show ?case using Cons(6) by (cases e rule: clean_event.cases) (simp_all add: projections_Cons) }
qed

lemma clean_report_event: "clean_event (Print (clean_report E st od n))"
  by (simp add: clean_report_def)

lemma clean_old_builds_out:
  "\<exists>es. out (snd (clean_old_builds E od st)) = out st @ es \<and> list_all clean_event es"
proof (cases rule: clean_old_builds_cases [of st E od])
  case 1
  then show ?thesis by (simp add: clean_old_builds_absent)
next
  case (2 es)
  have "list_all clean_event (map (\<lambda>n. Print (clean_report E st od n)) (map fst es))"
    by (simp add: list_all_iff clean_report_event)
  then show ?thesis
    using 2 by (simp add: clean_old_builds_dir clean_entries_out)
next
  case 3
  then show ?thesis by (simp add: clean_old_builds_file)
qed

lemma clean_old_builds_cwd [simp]: "cwd (snd (clean_old_builds E od st)) = cwd st"
  by (cases rule: clean_old_builds_cases [of st E od])
     (simp_all add: clean_old_builds_absent clean_old_builds_dir clean_old_builds_file)

lemma clean_old_builds_Raised:
  "fst (clean_old_builds E od st) = Raised e \<Longrightarrow> path_isfile st (locate E (cwd st) od)"
  by (cases rule: clean_old_builds_cases [of st E od])
     (simp_all add: clean_old_builds_absent clean_old_builds_dir)

lemma printed_prints [simp]: "printed (map Print ms) = ms"
  by (induction ms) (simp_all add: projections_Cons)

lemma run_builds_multi:
  assumes "\<exists>command \<in> set (map snd (platform_build_commands (build config))). command \<noteq> None"
  shows "run_builds E config st =
    build_platforms E config (platform_build_commands (build config)) (print Msg_building_platforms st)"
  using assms by (simp add: run_builds_def Let_def)

lemma run_builds_multi_out:
  assumes "\<exists>command \<in> set (map snd (platform_build_commands (build config))). command \<noteq> None"
  shows "\<exists>es. out (snd (run_builds E config st)) = out st @ Print Msg_building_platforms # es \<and>
           loop_trace (current_version (versioning config)) (platform_build_commands (build config))
             (fst (run_builds E config st)) es"
proof -
  obtain es where "out (snd (build_platforms E config (platform_build_commands (build config))
        (print Msg_building_platforms st))) = out (print Msg_building_platforms st) @ es"
    "loop_trace (current_version (versioning config)) (platform_build_commands (build config))
       (fst (build_platforms E config (platform_build_commands (build config))
        (print Msg_building_platforms st))) es"
    using build_platforms_out by blast
  then show ?thesis by (simp add: run_builds_multi [OF assms])
qed

lemma custom_report_proj [simp]:
  "build_runs (custom_report c rc) = [(c, rc)]"
  "announced (custom_report c rc) = []"
  "hook_calls (custom_report c rc) = []"
  "modes (custom_report c rc) = [Msg_no_platform_commands]"
  by (simp_all add: custom_report_def projections_Cons announced_Cons modes_Cons del: projections_append)

lemma run_builds_custom_out:
  assumes "\<not> (\<exists>command \<in> set (map snd (platform_build_commands (build config))). command \<noteq> None)"
    and "custom_build_command (build config) = Some cc"
  shows "\<exists>rc es. out (snd (run_builds E config st)) =
            out st @ custom_report cc rc @ es \<and>
          (if rc = 0
           then (\<exists>hes. es = Enter_git_commit (current_version (versioning config)) ''custom'' # hes \<and>
                   list_all hook_event hes)
           else es = [] \<and> fst (run_builds E config st) = Returned ())"
proof -
  let ?c = cc
  let ?st0 = "print Msg_no_platform_commands st"
  let ?rc = "fst (sh E (clock st) (cwd st) ?c (fs st))"
  obtain ok st1 where b: "execute_build_command E ?c ?st0 = (ok, st1)"
    by (cases "execute_build_command E ?c ?st0")
  have ok: "ok = (?rc = 0)"
    using execute_build_command_fst [of E ?c ?st0] b by simp
  have o1: "out st1 = out st @ custom_report ?c ?rc"
    using execute_build_command_out [of E ?c ?st0] b by (simp add: custom_report_def)
  have rb: "run_builds E config st = (if ok then commit_and_push E config ''custom'' st1 else (Returned (), st1))"
    using assms b by (simp add: run_builds_def Let_def)
  show ?thesis
  proof (cases ok)
    case False
    with rb o1 ok show ?thesis by (intro exI [of _ ?rc] exI [of _ "[]"]) simp
  next
    case True
    obtain hes where "out (snd (commit_and_push E config ''custom'' st1)) =
        out st1 @ Enter_git_commit (current_version (versioning config)) ''custom'' # hes"
      "list_all hook_event hes"
      using commit_and_push_out by blast
    with rb o1 ok True show ?thesis
      by (intro exI [of _ ?rc] exI [of _ "Enter_git_commit (current_version (versioning config)) ''custom'' # hes"]) simp
  qed
qed

lemma build_project_loaded:
  assumes "lookup (fs st) (cwd st @ BIRB_CONFIG_FILE) = Some (File (Manifest_json config))"
  shows "build_project E st =
    (if clean_before_build (build config) = Some True
     then (case clean_old_builds E (output_directory (build config))
                  (print (Msg_cleaning (output_directory (build config))) st) of
             (Raised e, st1) \<Rightarrow> (Raised e, st1)
           | (Returned u, st1) \<Rightarrow> run_builds E config st1)
     else run_builds E config st)"
proof -
  have "load_birb_json st = (Returned (Some config), st)"
    using assms by (simp add: load_birb_json_Some)
  then show ?thesis
    by (cases "clean_before_build (build config)") (auto simp: build_project_def Let_def)
qed

lemma build_project_selects:
  assumes "lookup (fs st) (cwd st @ BIRB_CONFIG_FILE) = Some (File (Manifest_json config))"
    and "clean_before_build (build config) = Some True \<longrightarrow>
           \<not> path_isfile st (locate E (cwd st) (output_directory (build config)))"
  shows "\<exists>st1 ces. build_project E st = run_builds E config st1 \<and> out st1 = out st @ ces \<and>
           list_all clean_event ces \<and> cwd st1 = cwd st"
proof (cases "clean_before_build (build config) = Some True")
  case False
  then have "build_project E st = run_builds E config st"
    using build_project_loaded [OF assms(1)] by simp
  then show ?thesis by (intro exI [of _ st] exI [of _ "[]"]) simp
next
  case True
  let ?od = "output_directory (build config)"
  let ?st0 = "print (Msg_cleaning ?od) st"
  obtain r st1 where c: "clean_old_builds E ?od ?st0 = (r, st1)"
    by (cases "clean_old_builds E ?od ?st0")
  have "\<not> path_isfile ?st0 (locate E (cwd ?st0) ?od)"
    using assms(2) True by (simp add: path_isfile_def)
  then have "r = Returned ()"
    using clean_old_builds_Raised [of E ?od ?st0] c by (cases r) auto
  then have bp: "build_project E st = run_builds E config st1"
    using build_project_loaded [OF assms(1)] True c by simp
  obtain es where es: "out st1 = out ?st0 @ es" "list_all clean_event es"
    using clean_old_builds_out [of E ?od ?st0] c by auto
  have "cwd st1 = cwd st"
    using clean_old_builds_cwd [of E ?od ?st0] c by simp
  with bp es show ?thesis
    by (intro exI [of _ st1] exI [of _ "Print (Msg_cleaning ?od) # es"]) simp
qed

lemma succeeded_mode_line [simp]:
  "succeeded cur (Print Msg_building_platforms # es) = succeeded cur es"
  by simp

lemma targets_member: "(p, Some c) \<in> set cmds \<Longrightarrow> (p, c) \<in> set (targets cmds)"
  by (induction cmds rule: targets.induct) auto

lemmas run_defs = build_project_def load_birb_json_def path_exists_def BIRB_CONFIG_FILE_def
  BIRB_DIR_def print_def emit_def clean_old_builds_def os_listdir_def clean_entry_def
  path_isfile_def path_islink_def path_isdir_def os_unlink_def os_rmdir_def run_builds_def
  execute_build_command_def run_shell_def run_git_def commit_and_push_def git_commit_def
  git_commit_try_def os_chdir_def format_template_def plain_char_def lit_def subst_def Let_def
  emitted_def build_runs_def push_runs_def git_runs_def hook_calls_def printed_def announced_def
  modes_def clean_report_def clean_succeeds_def
  demo_config_def demo_env_def demo_state_def all_null_def with_custom_entry_def

lemma format_scan_literal:
  "brace_free a \<Longrightarrow> format_scan v p (a @ rest) = subst a (format_scan v p rest)"
proof (induction a)
  case Nil
  show ?case by (cases "format_scan v p rest") (simp_all add: subst_def)
next
  case (Cons x a)
  then have "x \<noteq> CHR ''{''" "x \<noteq> CHR ''}''" "brace_free a"
    by (auto simp: brace_free_def)
  with Cons.IH show ?case
    by (cases "format_scan v p rest") (simp_all add: subst_def lit_def)
qed

lemma format_scan_version:
  "format_scan v p (''{version}'' @ rest) = subst v (format_scan v p rest)"
  by (simp add: plain_char_def)

lemma format_scan_platform:
  "format_scan v p (''{platform}'' @ rest) = subst p (format_scan v p rest)"
  by (simp add: plain_char_def)

lemma format_scan_end: "brace_free c \<Longrightarrow> format_scan v p c = Formatted c"
  using format_scan_literal [of c v p "[]"] by (simp add: subst_def)

lemma format_version_platform:
  assumes "brace_free a" "brace_free b" "brace_free c"
  shows "format_template E (a @ ''{version}'' @ b @ ''{platform}'' @ c) v p = Returned (a @ v @ b @ p @ c)"
    and "format_template E (a @ ''{platform}'' @ b @ ''{version}'' @ c) v p = Returned (a @ p @ b @ v @ c)"
  using assms
  by (simp_all only: format_template_def format_scan_literal format_scan_version format_scan_platform
        format_scan_end subst_def formatted.case)

lemma git_commit_absent:
  assumes "\<not> path_exists st (cwd st @ BIRB_CONFIG_FILE)"
  shows "git_commit E version platform st =
    (Returned (), st\<lparr>out := out st @ [Enter_git_commit version platform, Print Msg_manifest_not_found]\<rparr>)"
proof -
  have "\<not> path_exists (emit (Enter_git_commit version platform) st)
          (cwd (emit (Enter_git_commit version platform) st) @ BIRB_CONFIG_FILE)"
    using assms by (simp add: path_exists_def)
  then show ?thesis
    by (simp add: git_commit_def load_birb_json_def print_def emit_def)
qed

lemma git_commit_no_auto_commit:
  assumes "lookup (fs st) (cwd st @ BIRB_CONFIG_FILE) = Some (File (Manifest_json c))"
    and "\<not> auto_commit (git_integration c)"
  shows "git_commit E version platform st = (Returned (), emit (Enter_git_commit version platform) st)"
proof -
  have "load_birb_json (emit (Enter_git_commit version platform) st) =
      (Returned (Some c), emit (Enter_git_commit version platform) st)"
    using assms(1) by (simp add: load_birb_json_Some)
  with assms(2) show ?thesis by (simp add: git_commit_def)
qed

lemma git_commit_message:
  assumes "lookup (fs st) (cwd st @ BIRB_CONFIG_FILE) = Some (File (Manifest_json c))"
    and "auto_commit (git_integration c)"
    and "format_template E (commit_message_template (git_integration c)) version platform = Returned m"
  shows "take 2 (emitted st (snd (git_commit E version platform st))) =
           [Enter_git_commit version platform, Print (Msg_committing m)]"
proof -
  let ?st0 = "emit (Enter_git_commit version platform) st"
  have l: "load_birb_json ?st0 = (Returned (Some c), ?st0)"
    using assms(1) by (simp add: load_birb_json_Some)
  obtain es where "out (snd (git_commit_try E m (print (Msg_committing m) ?st0))) =
      out (print (Msg_committing m) ?st0) @ es"
    using git_commit_try_out by blast
  then have "out (snd (git_commit E version platform st)) =
      out st @ ([Enter_git_commit version platform, Print (Msg_committing m)] @ es)"
    using l assms(2,3) by (simp add: git_commit_def split_beta)
  then have "emitted st (snd (git_commit E version platform st)) =
      [Enter_git_commit version platform, Print (Msg_committing m)] @ es"
    by (rule emitted_append)
  then show ?thesis by simp
qed

lemma keep_sh: "commands_keep E q \<Longrightarrow> lookup (snd (sh E t d c f)) q = lookup f q"
  by (simp add: commands_keep_def)

lemma keep_git: "commands_keep E q \<Longrightarrow> lookup (snd (git E t d a f)) q = lookup f q"
  by (simp add: commands_keep_def)

lemma execute_build_command_keeps:
  "commands_keep E q \<Longrightarrow> lookup (fs (snd (execute_build_command E c st))) q = lookup (fs st) q"
  by (simp add: keep_sh)

lemma execute_vcs_push_commands_keeps:
  "commands_keep E q \<Longrightarrow> lookup (fs (execute_vcs_push_commands E cmds st)) q = lookup (fs st) q"
  by (induction cmds arbitrary: st) (simp_all add: Let_def split_beta keep_sh)

lemma git_commit_try_keeps:
  "commands_keep E q \<Longrightarrow> lookup (fs (snd (git_commit_try E m st))) q = lookup (fs st) q"
  by (simp add: git_commit_try_def split_beta keep_git split: outcome.splits spawn.splits)

lemma git_commit_keeps:
  assumes "commands_keep E q"
  shows "lookup (fs (snd (git_commit E version platform st))) q = lookup (fs st) q"
proof (cases "load_birb_json (emit (Enter_git_commit version platform) st)")
  case (Pair r st1)
  have f1: "fs st1 = fs st"
    using load_birb_json_fields(2) [of "emit (Enter_git_commit version platform) st"] Pair by simp
  show ?thesis
    using Pair f1 git_commit_try_keeps [OF assms]
    by (simp add: git_commit_def split_beta split: outcome.splits option.splits)
qed

lemma commit_and_push_keeps:
  assumes "commands_keep E q"
  shows "lookup (fs (snd (commit_and_push E config platform st))) q = lookup (fs st) q"
proof (cases "git_commit E (current_version (versioning config)) platform st")
  case (Pair r st1)
  have "lookup (fs st1) q = lookup (fs st) q"
    using git_commit_keeps [OF assms, of "current_version (versioning config)" platform st] Pair by simp
  then show ?thesis
    using Pair by (cases r) (simp_all add: commit_and_push_def execute_vcs_push_commands_keeps [OF assms])
qed

lemma commit_and_push_cwd: "cwd (snd (commit_and_push E config platform st)) = cwd st"
proof (cases "git_commit E (current_version (versioning config)) platform st")
  case (Pair r st1)
  have "cwd st1 = cwd st"
    using git_commit_cwd [of E "current_version (versioning config)" platform st] Pair by simp
  then show ?thesis
    using Pair by (cases r) (simp_all add: commit_and_push_def execute_vcs_push_commands_cwd)
qed

lemma build_platforms_keeps:
  assumes "commands_keep E q"
  shows "lookup (fs (snd (build_platforms E config cmds st))) q = lookup (fs st) q \<and>
         cwd (snd (build_platforms E config cmds st)) = cwd st"
proof (induction cmds arbitrary: st)
  case Nil
  show ?case by simp
next
  case (Cons pc rest)
  obtain p c where pc: "pc = (p, c)" by (cases pc)
  show ?case
  proof (cases c)
    case None
    with pc Cons.IH [of st] show ?thesis by simp
  next
    case (Some command)
    let ?b = "execute_build_command E command (print (Msg_building_for p) st)"
    obtain ok st1 where b: "?b = (ok, st1)" by (cases ?b)
    have k1: "lookup (fs st1) q = lookup (fs st) q" "cwd st1 = cwd st"
      using execute_build_command_keeps [OF assms, of command "print (Msg_building_for p) st"]
        execute_build_command_fields(1) [of E command "print (Msg_building_for p) st"] b by simp_all
    show ?thesis
    proof (cases ok)
      case False
      with pc Some b k1 Cons.IH [of st1] show ?thesis by simp
    next
      case True
      obtain r2 st2 where h: "commit_and_push E config p st1 = (r2, st2)"
        by (cases "commit_and_push E config p st1")
      have k2: "lookup (fs st2) q = lookup (fs st) q" "cwd st2 = cwd st"
        using commit_and_push_keeps [OF assms, of config p st1] commit_and_push_cwd [of E config p st1] h k1
        by simp_all
      show ?thesis
        using pc Some b True h k2 Cons.IH [of st2] by (cases r2) simp_all
    qed
  qed
qed

lemma run_builds_keeps:
  assumes "commands_keep E q"
  shows "lookup (fs (snd (run_builds E config st))) q = lookup (fs st) q \<and>
         cwd (snd (run_builds E config st)) = cwd st"
proof (cases "\<exists>command \<in> set (map snd (platform_build_commands (build config))). command \<noteq> None")
  case True
  then show ?thesis
    using build_platforms_keeps [OF assms, of config "platform_build_commands (build config)"
        "print Msg_building_platforms st"]
    by (simp add: run_builds_multi)
next
  case False
  show ?thesis
  proof (cases "custom_build_command (build config)")
    case None
    with False show ?thesis by (simp add: run_builds_def Let_def)
  next
    case (Some cc)
    let ?st0 = "print Msg_no_platform_commands st"
    obtain ok st1 where b: "execute_build_command E cc ?st0 = (ok, st1)"
      by (cases "execute_build_command E cc ?st0")
    have k1: "lookup (fs st1) q = lookup (fs st) q" "cwd st1 = cwd st"
      using execute_build_command_keeps [OF assms, of cc ?st0]
        execute_build_command_fields(1) [of E cc ?st0] b by simp_all
    have rb: "run_builds E config st =
        (if ok then commit_and_push E config ''custom'' st1 else (Returned (), st1))"
      using False Some b by (simp add: run_builds_def Let_def)
    show ?thesis
      using rb k1 commit_and_push_keeps [OF assms, of config "''custom''" st1]
        commit_and_push_cwd [of E config "''custom''" st1]
      by (cases ok) simp_all
  qed
qed

lemma lookup_below_file:
  assumes "lookup t q = Some (File x)" and "prefix q d"
  shows "lookup t d = (if d = q then Some (File x) else None)"
proof -
  from assms(2) obtain r where d: "d = q @ r" by (auto simp: prefix_def)
  show ?thesis
    using assms(1) by (cases r) (simp_all add: d lookup_append)
qed

lemma clean_old_builds_keeps:
  assumes "lookup (fs st) (p @ [name]) = Some (File x)"
    and "locate E (cwd st) od \<noteq> p"
  shows "lookup (fs (snd (clean_old_builds E od st))) (p @ [name]) = lookup (fs st) (p @ [name])"
proof (cases rule: clean_old_builds_cases [of st E od])
  case 1
  then show ?thesis by (simp add: clean_old_builds_absent)
next
  case 3
  then show ?thesis by (simp add: clean_old_builds_file)
next
  case (2 es)
  let ?d = "locate E (cwd st) od"
  let ?q = "p @ [name]"
  have np: "\<not> prefix ?q ?d"
  proof
    assume "prefix ?q ?d"
    from lookup_below_file [OF assms(1) this] 2 show False
      by (simp split: if_splits)
  qed
  have no: "\<not> (clean_succeeds E st (?d @ [n]) \<and> prefix (?d @ [n]) ?q)" for n
  proof
    assume a: "clean_succeeds E st (?d @ [n]) \<and> prefix (?d @ [n]) ?q"
    then obtain r where r: "?q = (?d @ [n]) @ r" by (auto simp: prefix_def)
    show False
    proof (cases r)
      case Nil
      with r assms(2) show False by simp
    next
      case (Cons c cs)
      with r assms(1) have "lookup (fs st) ((?d @ [n]) @ c # cs) = Some (File x)" by simp
      from lookup_child_dir [OF this] obtain es' where
        "lookup (fs st) (?d @ [n]) = Some (Dir es')" "es' \<noteq> []" by blast
      with a show False by (simp add: clean_succeeds_def)
    qed
  qed
  have "\<not> (\<exists>n\<in>set (map fst es). clean_succeeds E st (?d @ [n]) \<and> prefix (?d @ [n]) ?q)"
    using no by blast
  then have "lookup (fs (clean_entries E od (map fst es) st)) ?q = lookup (fs st) ?q"
    using clean_entries_lookup [OF np, of "map fst es"] by (simp only: if_False)
  then show ?thesis
    by (simp add: clean_old_builds_dir [OF 2])
qed

lemma map_of_append_new: "map_of es c = None \<Longrightarrow> map_of (es @ [(c, n)]) c = Some n"
  by (induction es) auto

lemma lookup_put_at:
  "lookup t p \<noteq> None \<or> (p \<noteq> [] \<and> (\<exists>es. lookup t (butlast p) = Some (Dir es))) \<Longrightarrow>
     lookup (put_at t p new) p = Some new"
proof (induction t p new rule: put_at.induct)
  case (1 n new)
  show ?case by simp
next
  case (2 es c cs new)
  show ?case
  proof (cases "map_of es c")
    case None
    with "2.prems" have "cs = []" by (auto split: if_splits)
    with None show ?thesis by (simp add: map_of_append_new del: map_of_append)
  next
    case (Some n)
    then have m: "(c, n) \<in> set es" by (rule map_of_SomeD)
    have "lookup n cs \<noteq> None \<or> (cs \<noteq> [] \<and> (\<exists>es'. lookup n (butlast cs) = Some (Dir es')))"
      using "2.prems" Some by (auto split: if_splits)
    then have "lookup (put_at n cs new) cs = Some new"
      using "2.IH" [OF Some m] by simp
    with Some show ?thesis
      by (simp add: map_of_map_fst [where f = "\<lambda>n. put_at n cs new" and c = c and es = es])
  qed
next
  case (3 x c cs new)
  then show ?case by (auto split: if_splits)
next
  case (4 c cs new)
  then show ?case by (auto split: if_splits)
qed

lemma os_makedirs_cwd: "cwd (snd (os_makedirs name st)) = cwd st"
  by (simp add: os_makedirs_def split: option.splits node.splits)

lemma write_json_written:
  assumes "write_json file config st = (Returned (), st')"
  shows "lookup (fs st') (cwd st @ file) = Some (File (Manifest_json config))"
proof (cases "lookup (fs st) (cwd st @ file)")
  case None
  with assms have d: "path_isdir st (butlast (cwd st @ file))"
    and s: "st' = st\<lparr>fs := put_at (fs st) (cwd st @ file) (File (Manifest_json config))\<rparr>"
    by (auto simp: write_json_def split: if_splits)
  from d obtain es where e: "lookup (fs st) (butlast (cwd st @ file)) = Some (Dir es)"
    by (auto simp: path_isdir_def split: option.splits node.splits)
  have "cwd st @ file \<noteq> []"
    using None by auto
  with e show ?thesis
    using lookup_put_at [of "fs st" "cwd st @ file"] by (simp add: s)
next
  case (Some n)
  with assms have s: "st' = st\<lparr>fs := put_at (fs st) (cwd st @ file) (File (Manifest_json config))\<rparr>"
    by (cases n) (auto simp: write_json_def)
  show ?thesis
    using lookup_put_at [of "fs st" "cwd st @ file"] Some by (simp add: s)
qed

lemma create_birb_json_custom:
  assumes "create_birb_json name version g pcs od cl repo br vcs st = (Returned (), st')"
    and "map_of pcs ''custom'' = Some (Some c)"
  shows "\<exists>config. lookup (fs st') (cwd st @ BIRB_CONFIG_FILE) = Some (File (Manifest_json config)) \<and>
           (''custom'', Some c) \<in> set (platform_build_commands (build config)) \<and>
           custom_build_command (build config) = Some c"
proof -
  let ?config = "\<lparr>project_name = name,
       versioning = \<lparr>auto_increment = True, increment_type = ''patch'', current_version = version\<rparr>,
       build = \<lparr>custom_build_command = Some c, platform_build_commands = pcs,
                output_directory = od, clean_before_build = Some cl\<rparr>,
       git_integration = \<lparr>repo_name = repo, branch = br, auto_commit = True,
                commit_message_template = ''Release {version} for {platform}'',
                vcs_push_command = vcs\<rparr>\<rparr>"
  obtain r1 st1 where m: "os_makedirs BIRB_DIR st = (r1, st1)" by (cases "os_makedirs BIRB_DIR st")
  have c1: "cwd st1 = cwd st" using os_makedirs_cwd [of BIRB_DIR st] m by simp
  obtain r2 st2 where w: "write_json BIRB_CONFIG_FILE ?config st1 = (r2, st2)"
    by (cases "write_json BIRB_CONFIG_FILE ?config st1")
  from assms m w have r: "r1 = Returned ()" "r2 = Returned ()" and s: "st' = print Msg_created st2"
    by (auto simp: create_birb_json_def split: outcome.splits)
  have "lookup (fs st2) (cwd st1 @ BIRB_CONFIG_FILE) = Some (File (Manifest_json ?config))"
    using write_json_written [of BIRB_CONFIG_FILE ?config st1 st2] w r by simp
  then have "lookup (fs st') (cwd st @ BIRB_CONFIG_FILE) = Some (File (Manifest_json ?config))"
    using c1 s by simp
  moreover have "(''custom'', Some c) \<in> set pcs"
    using assms(2) by (rule map_of_SomeD)
  ultimately show ?thesis
    by (intro exI [of _ ?config]) simp
qed

lemma interactive_create_custom:
  assumes "interactive_create E inputs st = (Returned (), st')"
  shows "\<exists>config c. lookup (fs st') (cwd st @ BIRB_CONFIG_FILE) = Some (File (Manifest_json config)) \<and>
           (''custom'', Some c) \<in> set (platform_build_commands (build config)) \<and>
           custom_build_command (build config) = Some c"
proof -
  from assms obtain name version pcs c od cl repo br vcs st3 where
    c: "create_birb_json name version True pcs od cl repo br vcs st3 = (Returned (), st')"
    and m: "map_of pcs ''custom'' = Some (Some c)" and w: "cwd st3 = cwd st"
    by (simp add: interactive_create_def py_input_def Let_def split: list.splits)
  from create_birb_json_custom [OF c m] w show ?thesis by auto
qed

lemmas create_defs = interactive_create_def py_input_def create_birb_json_def os_makedirs_def
  write_json_def lower_def lower_char_def path_isdir_def
  BIRB_CONFIG_FILE_def BIRB_DIR_def print_def emit_def Let_def
  demo_answers_def created_config_def empty_project_def

lemma sh_results_commands: "map fst (sh_results E t d cmds f) = cmds"
  by (induction cmds arbitrary: t f) simp_all

lemma execute_vcs_push_commands_runs:
  "out (execute_vcs_push_commands E cmds st) =
     out st @ concat (map push_report (sh_results E (clock st) (cwd st) cmds (fs st))) \<and>
   fs (execute_vcs_push_commands E cmds st) = sh_fs E (clock st) (cwd st) cmds (fs st) \<and>
   clock (execute_vcs_push_commands E cmds st) = clock st + length cmds"
proof (induction cmds arbitrary: st)
  case Nil
  then show ?case by simp
next
  case (Cons c cmds)
  let ?rc = "fst (sh E (clock st) (cwd st) c (fs st))"
  let ?st = "(if ?rc = 0 then print Msg_push_succeeded else print (Msg_push_failed ?rc))
               (emit (Push_run c ?rc) (snd (run_shell E c (print (Msg_push_executing c) st))))"
  have step: "execute_vcs_push_commands E (c # cmds) st = execute_vcs_push_commands E cmds ?st"
    by (simp add: Let_def split_beta)
  have o: "out ?st = out st @ push_report (c, ?rc)"
    by (simp add: push_report_def)
  have f: "fs ?st = snd (sh E (clock st) (cwd st) c (fs st))" "clock ?st = Suc (clock st)"
    "cwd ?st = cwd st"
    by simp_all
  from Cons.IH [of ?st] show ?case
    unfolding step o f by simp
qed

lemma build_platforms_statuses:
  "(c, rc) \<in> set (build_runs (emitted st (snd (build_platforms E config cmds st)))) \<Longrightarrow>
     \<exists>t f. rc = fst (sh E t (cwd st) c f)"
proof (induction cmds arbitrary: st)
  case Nil
  then show ?case by (simp add: emitted_def build_runs_def)
next
  case (Cons pc rest)
  obtain p oc where pc: "pc = (p, oc)" by (cases pc)
  show ?case
  proof (cases oc)
    case None
    with Cons pc show ?thesis by simp
  next
    case (Some command)
    let ?rc = "fst (sh E (clock st) (cwd st) command (fs st))"
    let ?b = "execute_build_command E command (print (Msg_building_for p) st)"
    obtain ok st1 where b: "?b = (ok, st1)" by (cases ?b)
    have o1: "out st1 = out st @ target_report p command ?rc"
      using execute_build_command_report [of E command p st] b by simp
    have c1: "cwd st1 = cwd st"
      using execute_build_command_fields(1) [of E command "print (Msg_building_for p) st"] b by simp
    have here: "\<exists>t f. ?rc = fst (sh E t (cwd st) command f)" by blast
    show ?thesis
    proof (cases ok)
      case False
      have eq: "build_platforms E config (pc # rest) st = build_platforms E config rest st1"
        using pc Some b False by simp
      obtain es where es: "out (snd (build_platforms E config rest st1)) = out st1 @ es"
        using build_platforms_out [of E config rest st1] by blast
      have e1: "emitted st1 (snd (build_platforms E config rest st1)) = es"
        using es by (rule emitted_append)
      have "out (snd (build_platforms E config rest st1)) = out st @ (target_report p command ?rc @ es)"
        using es o1 by simp
      then have e0: "emitted st (snd (build_platforms E config (pc # rest) st)) = target_report p command ?rc @ es"
        unfolding eq by (rule emitted_append)
      from Cons.prems have "(c, rc) = (command, ?rc) \<or> (c, rc) \<in> set (build_runs es)"
        unfolding e0 by (simp add: target_report_proj)
      then show ?thesis
      proof
        assume "(c, rc) = (command, ?rc)"
        then show ?thesis using here by simp
      next
        assume "(c, rc) \<in> set (build_runs es)"
        then show ?thesis using Cons.IH [of st1] e1 c1 by simp
      qed
    next
      case True
      obtain r2 st2 where h: "commit_and_push E config p st1 = (r2, st2)"
        by (cases "commit_and_push E config p st1")
      obtain hes where hes: "out st2 = out st1 @ Enter_git_commit (current_version (versioning config)) p # hes"
        "list_all hook_event hes"
        using commit_and_push_out [of E config p st1] h by auto
      have c2: "cwd st2 = cwd st"
        using commit_and_push_cwd [of E config p st1] h c1 by simp
      have q: "build_runs (Enter_git_commit (current_version (versioning config)) p # hes @ ys) = build_runs ys" for ys
        using hook_events_quiet(1) [OF hes(2)] by (simp add: projections_Cons del: projections_append)
      show ?thesis
      proof (cases r2)
        case (Raised e)
        have eq: "build_platforms E config (pc # rest) st = (Raised e, st2)"
          using pc Some b True h Raised by simp
        have "out st2 = out st @ (target_report p command ?rc @ Enter_git_commit (current_version (versioning config)) p # hes @ [])"
          using hes(1) o1 by simp
        then have e0: "emitted st (snd (build_platforms E config (pc # rest) st)) =
            target_report p command ?rc @ Enter_git_commit (current_version (versioning config)) p # hes @ []"
          unfolding eq snd_conv by (rule emitted_append)
        from Cons.prems have "(c, rc) = (command, ?rc)"
          unfolding e0 projections_append q by (simp add: target_report_proj projections_Nil)
        then show ?thesis using here by simp
      next
        case (Returned u)
        have eq: "build_platforms E config (pc # rest) st = build_platforms E config rest st2"
          using pc Some b True h Returned by simp
        obtain es where es: "out (snd (build_platforms E config rest st2)) = out st2 @ es"
          using build_platforms_out [of E config rest st2] by blast
        have e1: "emitted st2 (snd (build_platforms E config rest st2)) = es"
          using es by (rule emitted_append)
        have "out (snd (build_platforms E config rest st2)) =
            out st @ (target_report p command ?rc @ Enter_git_commit (current_version (versioning config)) p # hes @ es)"
          using es hes(1) o1 by simp
        then have e0: "emitted st (snd (build_platforms E config (pc # rest) st)) =
            target_report p command ?rc @ Enter_git_commit (current_version (versioning config)) p # hes @ es"
          unfolding eq by (rule emitted_append)
        from Cons.prems have "(c, rc) = (command, ?rc) \<or> (c, rc) \<in> set (build_runs es)"
          unfolding e0 projections_append q by (simp add: target_report_proj)
        then show ?thesis
        proof
          assume "(c, rc) = (command, ?rc)"
          then show ?thesis using here by simp
        next
          assume "(c, rc) \<in> set (build_runs es)"
          then show ?thesis using Cons.IH [of st2] e1 c2 by simp
        qed
      qed
    qed
  qed
qed

lemma clean_events_succeeded:
  "list_all clean_event ces \<Longrightarrow> succeeded cur (ces @ ys) = succeeded cur ys"
proof (induction ces)
  case Nil
  show ?case by simp
next
  case (Cons e ces)
  then show ?case by (cases e rule: clean_event.cases) simp_all
qed

lemma custom_entry_trace:
  assumes "lookup (fs st) (cwd st @ BIRB_CONFIG_FILE) = Some (File (Manifest_json config))"
    and "clean_before_build (build config) = Some True \<longrightarrow>
           \<not> path_isfile st (locate E (cwd st) (output_directory (build config)))"
    and "(''custom'', Some c) \<in> set (platform_build_commands (build config))"
  shows "let r = build_project E st; es = emitted st (snd r);
             cmds = platform_build_commands (build config)
         in modes es = [Msg_building_platforms] \<and>
            prefix (map fst (build_runs es)) (map snd (targets cmds)) \<and>
            announced es = take (length (build_runs es)) (map fst (targets cmds)) \<and>
            (\<forall>run \<in> set (build_runs es). \<exists>t f. snd run = fst (sh E t (cwd st) (fst run) f)) \<and>
            (\<forall>cur. hook_calls es = map (Pair (current_version (versioning config))) (succeeded cur es)) \<and>
            (fst r = Returned () \<longrightarrow>
               zip (announced es) (map fst (build_runs es)) = targets cmds \<and>
               (''custom'', c) \<in> set (zip (announced es) (map fst (build_runs es)))) \<and>
            (\<forall>e. fst r = Raised e \<longrightarrow> build_runs es \<noteq> [] \<and> snd (last (build_runs es)) = 0)"
proof -
  let ?cmds = "platform_build_commands (build config)"
  let ?v = "current_version (versioning config)"
  have ex: "\<exists>command \<in> set (map snd ?cmds). command \<noteq> None"
    using assms(3) by force
  obtain st1 ces where bp: "build_project E st = run_builds E config st1"
    and o1: "out st1 = out st @ ces" and ce: "list_all clean_event ces" and c1: "cwd st1 = cwd st"
    using build_project_selects [OF assms(1,2)] by blast
  note q = clean_events_quiet [OF ce]
  let ?st2 = "print Msg_building_platforms st1"
  have rb: "run_builds E config st1 = build_platforms E config ?cmds ?st2"
    by (rule run_builds_multi [OF ex])
  obtain es where es: "out (snd (run_builds E config st1)) = out st1 @ Print Msg_building_platforms # es"
    and lt: "loop_trace ?v ?cmds (fst (run_builds E config st1)) es"
    using run_builds_multi_out [OF ex] by blast
  have "out (snd (build_platforms E config ?cmds ?st2)) = out ?st2 @ es"
    using es rb by simp
  then have e2: "emitted ?st2 (snd (build_platforms E config ?cmds ?st2)) = es"
    by (rule emitted_append)
  have st: "\<exists>t f. snd run = fst (sh E t (cwd st) (fst run) f)" if "run \<in> set (build_runs es)" for run
  proof -
    from that have "(fst run, snd run) \<in> set (build_runs (emitted ?st2 (snd (build_platforms E config ?cmds ?st2))))"
      by (simp add: e2)
    from build_platforms_statuses [OF this] show ?thesis by (simp add: c1)
  qed
  have "out (snd (run_builds E config st1)) = out st @ (ces @ Print Msg_building_platforms # es)"
    using o1 es by simp
  then have e: "emitted st (snd (run_builds E config st1)) = ces @ Print Msg_building_platforms # es"
    by (rule emitted_append)
  have p: "build_runs (ces @ Print Msg_building_platforms # es) = build_runs es"
    "announced (ces @ Print Msg_building_platforms # es) = announced es"
    "modes (ces @ Print Msg_building_platforms # es) = Msg_building_platforms # modes es"
    "hook_calls (ces @ Print Msg_building_platforms # es) = hook_calls es"
    using q by (simp_all add: projections_Cons announced_Cons modes_Cons)
  have s: "succeeded cur (ces @ Print Msg_building_platforms # es) = succeeded cur es" for cur
    by (simp add: clean_events_succeeded [OF ce])
  have z: "zip (map fst (targets ?cmds)) (map snd (targets ?cmds)) = targets ?cmds"
    by (simp add: zip_map_fst_snd)
  have m: "(''custom'', c) \<in> set (targets ?cmds)"
    using assms(3) by (rule targets_member)
  have pre: "prefix (map fst (build_runs es)) (map snd (targets ?cmds))"
    and mo: "modes es = []"
    and an: "announced es = take (length (build_runs es)) (map fst (targets ?cmds))"
    and hk: "\<forall>cur. hook_calls es = map (Pair ?v) (succeeded cur es)"
    and ra: "\<forall>e. fst (run_builds E config st1) = Raised e \<longrightarrow>
               build_runs es \<noteq> [] \<and> snd (last (build_runs es)) = 0"
    using lt by (simp_all add: loop_trace_def)
  have fin: "zip (announced es) (map fst (build_runs es)) = targets ?cmds"
    if "fst (run_builds E config st1) = Returned ()"
  proof -
    have b: "map fst (build_runs es) = map snd (targets ?cmds)"
      using lt that by (simp_all add: loop_trace_def)
    from b have "length (build_runs es) = length (targets ?cmds)"
      by (metis length_map)
    with an have "announced es = map fst (targets ?cmds)" by simp
    with b z show ?thesis by simp
  qed
  have f2: "fst (run_builds E config st1) = Returned () \<longrightarrow>
      zip (announced es) (map fst (build_runs es)) = targets ?cmds \<and>
      (''custom'', c) \<in> set (zip (announced es) (map fst (build_runs es)))"
    using fin m by simp
  show ?thesis
    unfolding Let_def bp e p s
    using pre mo an st hk f2 ra m by simp
qed



section \<open>The claims\<close>

text \<open>
  C1, as the code has it. The claim that the push commands run only after a commit that
  succeeded does not hold: \<^verbatim>\<open>git_commit\<close> returns nothing, and both call sites run
  \<^verbatim>\<open>execute_vcs_push_commands\<close> right after it. So after a successful build, whenever
  \<^verbatim>\<open>git_commit\<close> returns (the commit succeeded, \<^verbatim>\<open>git\<close> exited with a non-zero status,
  \<^verbatim>\<open>auto_commit\<close> is false, or the manifest is gone), every entry of \<^verbatim>\<open>vcs_push_command\<close> is
  run, in order; the push commands are skipped only when \<^verbatim>\<open>git_commit\<close> raises, and then the
  exception leaves the two statements.
\<close>

theorem pushes_follow_every_returning_commit:
  "(fst (git_commit E (current_version (versioning config)) platform st) = Returned () \<longrightarrow>
      map fst (push_runs (emitted st (snd (commit_and_push E config platform st)))) =
        vcs_push_command (git_integration config)) \<and>
   (\<forall>e. fst (git_commit E (current_version (versioning config)) platform st) = Raised e \<longrightarrow>
      push_runs (emitted st (snd (commit_and_push E config platform st))) = [] \<and>
      fst (commit_and_push E config platform st) = Raised e)"
proof -
  let ?v = "current_version (versioning config)"
  obtain r st1 where g: "git_commit E ?v platform st = (r, st1)" by (cases "git_commit E ?v platform st")
  obtain es where es: "out st1 = out st @ Enter_git_commit ?v platform # es" "list_all commit_event es"
    using git_commit_out [of E ?v platform st] g by auto
  have p0: "push_runs (Enter_git_commit ?v platform # es) = []"
    using commit_events_no_push [OF es(2)] by (simp add: projections_Cons)
  show ?thesis
  proof (cases r)
    case (Raised e)
    with g es p0 show ?thesis by (simp add: commit_and_push_def emitted_append)
  next
    case (Returned u)
    let ?cmds = "vcs_push_command (git_integration config)"
    obtain rcs where rcs: "length rcs = length ?cmds"
      "out (execute_vcs_push_commands E ?cmds st1) = out st1 @ concat (map push_report (zip ?cmds rcs))"
      using execute_vcs_push_commands_out by blast
    have "out (snd (commit_and_push E config platform st)) =
            out st @ ((Enter_git_commit ?v platform # es) @ concat (map push_report (zip ?cmds rcs)))"
      using g Returned es(1) rcs(2) by (simp add: commit_and_push_def)
    then have "emitted st (snd (commit_and_push E config platform st)) =
            (Enter_git_commit ?v platform # es) @ concat (map push_report (zip ?cmds rcs))"
      by (rule emitted_append)
    then have "push_runs (emitted st (snd (commit_and_push E config platform st))) = zip ?cmds rcs"
      using p0 by (simp only: projections_append push_runs_reports) simp
    with rcs(1) g Returned show ?thesis by simp
  qed
qed

theorem pushes_follow_every_returning_commit_witness:
  "fst (git_commit demo_env (current_version (versioning demo_config)) ''windows''
          (demo_state demo_config)) = Returned () \<and>
   git_runs (emitted (demo_state demo_config)
      (snd (commit_and_push demo_env demo_config ''windows'' (demo_state demo_config)))) =
     [([''git'', ''add'', ''.''], Exited 0),
      ([''git'', ''commit'', ''-m'', ''Release 1.0.0 for windows''], Exited 1)] \<and>
   map fst (push_runs (emitted (demo_state demo_config)
      (snd (commit_and_push demo_env demo_config ''windows'' (demo_state demo_config))))) =
     [''push1'', ''push2''] \<and>
   fst (git_commit (demo_env\<lparr>git := \<lambda>t d argv f. (Not_started, f)\<rparr>)
          (current_version (versioning demo_config)) ''windows'' (demo_state demo_config)) =
     Raised OSError \<and>
   push_runs (emitted (demo_state demo_config)
      (snd (commit_and_push (demo_env\<lparr>git := \<lambda>t d argv f. (Not_started, f)\<rparr>) demo_config
              ''windows'' (demo_state demo_config)))) = []"
  using pushes_follow_every_returning_commit [of demo_env demo_config "''windows''" "demo_state demo_config"]
    pushes_follow_every_returning_commit [of "demo_env\<lparr>git := \<lambda>t d argv f. (Not_started, f)\<rparr>"
      demo_config "''windows''" "demo_state demo_config"]
  by (simp add: run_defs)

text \<open>
  The claim C1 fails on this run in custom-command mode: the build succeeds,
  \<^verbatim>\<open>git commit\<close> exits with status 1, and both push commands are run all the same.
\<close>

theorem pushes_run_after_failed_commit:
  "out (snd (build_project demo_env (demo_state (all_null demo_config)))) =
     [Print (Msg_cleaning ''builds''),
      Print (Msg_deleted ''builds'' ''a.o''),
      Print (Msg_delete_failed ''builds'' ''sub''),
      Print (Msg_deleted ''builds'' ''empty''),
      Print (Msg_deleted ''builds'' ''link''),
      Print (Msg_delete_failed ''builds'' ''locked.o''),
      Print Msg_no_platform_commands,
      Print (Msg_executing ''echo build''),
      Build_run ''echo build'' 0,
      Print Msg_build_succeeded,
      Enter_git_commit ''1.0.0'' ''custom'',
      Print (Msg_committing ''Release 1.0.0 for custom''),
      Git_run [''git'', ''add'', ''.''] (Exited 0),
      Git_run [''git'', ''commit'', ''-m'', ''Release 1.0.0 for custom''] (Exited 1),
      Print (Msg_commit_failed 1),
      Print (Msg_push_executing ''push1''),
      Push_run ''push1'' 1,
      Print (Msg_push_failed 1),
      Print (Msg_push_executing ''push2''),
      Push_run ''push2'' 0,
      Print Msg_push_succeeded]"
  by (simp add: run_defs)

text \<open>
  C2. For a manifest that loads, in a run that reaches the builds (the cleaning, when it is
  on, does not stop on an output directory that is a regular file), exactly one of the two
  mode lines is printed: the multi-platform one exactly when some entry of
  \<^verbatim>\<open>platform_build_commands\<close> is not \<^verbatim>\<open>null\<close>. Otherwise, \<^verbatim>\<open>custom_build_command\<close> being a
  command, it is the only build command run, once, and \<^verbatim>\<open>git_commit\<close> is called, when that
  command succeeded, once with the version of the manifest and the label \<^verbatim>\<open>custom\<close>.
\<close>

theorem mode_selection:
  assumes "lookup (fs st) (cwd st @ BIRB_CONFIG_FILE) = Some (File (Manifest_json config))"
    and "clean_before_build (build config) = Some True \<longrightarrow>
           \<not> path_isfile st (locate E (cwd st) (output_directory (build config)))"
  shows "let es = emitted st (snd (build_project E st));
             cmds = platform_build_commands (build config)
         in modes es = [if \<exists>command \<in> set (map snd cmds). command \<noteq> None
                        then Msg_building_platforms else Msg_no_platform_commands] \<and>
            ((\<forall>command \<in> set (map snd cmds). command = None) \<and>
             custom_build_command (build config) = Some cc \<longrightarrow>
               (\<exists>rc. build_runs es = [(cc, rc)] \<and>
                     hook_calls es =
                       (if rc = 0 then [(current_version (versioning config), ''custom'')] else [])))"
proof -
  let ?cmds = "platform_build_commands (build config)"
  obtain st1 ces where bp: "build_project E st = run_builds E config st1"
    and o1: "out st1 = out st @ ces" and ce: "list_all clean_event ces"
    using build_project_selects [OF assms] by blast
  note q = clean_events_quiet [OF ce]
  show ?thesis
  proof (cases "\<exists>command \<in> set (map snd ?cmds). command \<noteq> None")
    case True
    obtain es where es: "out (snd (run_builds E config st1)) = out st1 @ Print Msg_building_platforms # es"
      and lt: "loop_trace (current_version (versioning config)) ?cmds (fst (run_builds E config st1)) es"
      using run_builds_multi_out [OF True] by blast
    have "out (snd (build_project E st)) = out st @ (ces @ Print Msg_building_platforms # es)"
      using bp o1 es by simp
    then have e: "emitted st (snd (build_project E st)) = ces @ Print Msg_building_platforms # es"
      by (rule emitted_append)
    have "modes (ces @ Print Msg_building_platforms # es) = [Msg_building_platforms]"
      using lt q by (simp add: loop_trace_def modes_Cons)
    with True show ?thesis unfolding Let_def e by auto
  next
    case False
    have m: "modes (emitted st (snd (build_project E st))) = [Msg_no_platform_commands]"
    proof (cases "custom_build_command (build config)")
      case None
      have "out (snd (build_project E st)) =
          out st @ (ces @ [Print Msg_no_platform_commands, Print (Msg_executing ''None'')])"
        using bp o1 False None by (simp add: run_builds_def Let_def)
      then have "emitted st (snd (build_project E st)) =
          ces @ [Print Msg_no_platform_commands, Print (Msg_executing ''None'')]"
        by (rule emitted_append)
      then show ?thesis using q by (simp add: modes_Cons)
    next
      case (Some c)
      obtain rc es where es: "out (snd (run_builds E config st1)) = out st1 @ custom_report c rc @ es"
        and r: "if rc = 0
             then (\<exists>hes. es = Enter_git_commit (current_version (versioning config)) ''custom'' # hes \<and>
                     list_all hook_event hes)
             else es = [] \<and> fst (run_builds E config st1) = Returned ()"
        using run_builds_custom_out [OF False Some] by blast
      have "out (snd (build_project E st)) = out st @ (ces @ custom_report c rc @ es)"
        using bp o1 es by simp
      then have e: "emitted st (snd (build_project E st)) = ces @ custom_report c rc @ es"
        by (rule emitted_append)
      have "modes es = []"
      proof (cases "rc = 0")
        case True
        with r obtain hes where hes:
          "es = Enter_git_commit (current_version (versioning config)) ''custom'' # hes"
          "list_all hook_event hes" by auto
        show ?thesis using hook_events_silent [OF hes(2)] by (simp add: hes(1))
      next
        case False
        with r show ?thesis by simp
      qed
      then show ?thesis using q by (simp add: e)
    qed
    have b: "\<exists>rc. build_runs (emitted st (snd (build_project E st))) = [(cc, rc)] \<and>
        hook_calls (emitted st (snd (build_project E st))) =
          (if rc = 0 then [(current_version (versioning config), ''custom'')] else [])"
      if cc: "custom_build_command (build config) = Some cc"
    proof -
      obtain rc es where es: "out (snd (run_builds E config st1)) = out st1 @ custom_report cc rc @ es"
        and r: "if rc = 0
             then (\<exists>hes. es = Enter_git_commit (current_version (versioning config)) ''custom'' # hes \<and>
                     list_all hook_event hes)
             else es = [] \<and> fst (run_builds E config st1) = Returned ()"
        using run_builds_custom_out [OF False cc] by blast
      have "out (snd (build_project E st)) = out st @ (ces @ custom_report cc rc @ es)"
        using bp o1 es by simp
      then have e: "emitted st (snd (build_project E st)) = ces @ custom_report cc rc @ es"
        by (rule emitted_append)
      have h: "build_runs es = [] \<and>
          hook_calls es = (if rc = 0 then [(current_version (versioning config), ''custom'')] else [])"
      proof (cases "rc = 0")
        case True
        with r obtain hes where hes:
          "es = Enter_git_commit (current_version (versioning config)) ''custom'' # hes"
          "list_all hook_event hes" by auto
        show ?thesis using True hook_events_silent [OF hes(2)] by (simp add: hes(1))
      next
        case False
        with r show ?thesis by simp
      qed
      show ?thesis
        using h q by (intro exI [of _ rc]) (simp add: e)
    qed
    show ?thesis
      unfolding Let_def using False m b by auto
  qed
qed

theorem mode_selection_witness:
  "lookup (fs (demo_state (all_null demo_config)))
     (cwd (demo_state (all_null demo_config)) @ BIRB_CONFIG_FILE) =
     Some (File (Manifest_json (all_null demo_config))) \<and>
   \<not> path_isfile (demo_state (all_null demo_config))
       (locate demo_env (cwd (demo_state (all_null demo_config)))
          (output_directory (build (all_null demo_config)))) \<and>
   map snd (platform_build_commands (build (all_null demo_config))) = [None, None, None] \<and>
   custom_build_command (build (all_null demo_config)) = Some ''echo build'' \<and>
   modes (emitted (demo_state (all_null demo_config))
      (snd (build_project demo_env (demo_state (all_null demo_config))))) =
     [Msg_no_platform_commands] \<and>
   build_runs (emitted (demo_state (all_null demo_config))
      (snd (build_project demo_env (demo_state (all_null demo_config))))) = [(''echo build'', 0)] \<and>
   hook_calls (emitted (demo_state (all_null demo_config))
      (snd (build_project demo_env (demo_state (all_null demo_config))))) = [(''1.0.0'', ''custom'')] \<and>
   modes (emitted (demo_state demo_config)
      (snd (build_project demo_env (demo_state demo_config)))) = [Msg_building_platforms]"
proof -
  have l: "lookup (fs (demo_state c)) (cwd (demo_state c) @ BIRB_CONFIG_FILE) =
      Some (File (Manifest_json c))" for c
    by (simp add: demo_state_def BIRB_CONFIG_FILE_def BIRB_DIR_def)
  have f: "clean_before_build (build c) = Some True \<longrightarrow>
      \<not> path_isfile (demo_state c) (locate demo_env (cwd (demo_state c)) (output_directory (build c)))"
    if "output_directory (build c) = ''builds''" for c
    using that by (simp add: demo_state_def demo_env_def path_isfile_def)
  have o: "output_directory (build (all_null demo_config)) = ''builds''"
    "output_directory (build demo_config) = ''builds''"
    by (simp_all add: all_null_def demo_config_def)
  from mode_selection [OF l f [OF o(1)], of "''echo build''"] mode_selection [OF l f [OF o(2)]]
  show ?thesis by (simp add: run_defs)
qed

text \<open>
  C4. In multi-platform mode the build commands run are the commands of the mapping that are
  not \<^verbatim>\<open>null\<close>, in the order of the mapping, each announced under its platform; \<^verbatim>\<open>git_commit\<close>
  is called, with the version of the manifest, for exactly the platforms whose command exited
  with status 0, in that order. A run that returns has run every such command, whatever the
  exit status of the others; a run that raises stopped after a command that succeeded (the
  exception comes out of \<^verbatim>\<open>git_commit\<close>), never after one that failed.
\<close>

theorem multi_platform_iteration:
  assumes "\<exists>command \<in> set (map snd (platform_build_commands (build config))). command \<noteq> None"
  shows "let r = run_builds E config st; es = emitted st (snd r);
             cmds = platform_build_commands (build config)
         in prefix (map fst (build_runs es)) (map snd (targets cmds)) \<and>
            announced es = take (length (build_runs es)) (map fst (targets cmds)) \<and>
            hook_calls es = map (Pair (current_version (versioning config))) (succeeded cur es) \<and>
            (fst r = Returned () \<longrightarrow> map fst (build_runs es) = map snd (targets cmds)) \<and>
            (\<forall>e. fst r = Raised e \<longrightarrow> build_runs es \<noteq> [] \<and> snd (last (build_runs es)) = 0)"
proof -
  obtain es where es: "out (snd (run_builds E config st)) = out st @ Print Msg_building_platforms # es"
    and lt: "loop_trace (current_version (versioning config)) (platform_build_commands (build config))
             (fst (run_builds E config st)) es"
    using run_builds_multi_out [OF assms] by blast
  have e: "emitted st (snd (run_builds E config st)) = Print Msg_building_platforms # es"
    using es by (rule emitted_append)
  have p: "build_runs (Print Msg_building_platforms # es) = build_runs es"
    "announced (Print Msg_building_platforms # es) = announced es"
    "hook_calls (Print Msg_building_platforms # es) = hook_calls es"
    by (simp_all add: projections_Cons announced_Cons)
  show ?thesis
    using lt unfolding Let_def e p loop_trace_def by simp
qed

theorem multi_platform_iteration_witness:
  "(\<exists>command \<in> set (map snd (platform_build_commands (build demo_config))). command \<noteq> None) \<and>
   fst (run_builds demo_env demo_config (demo_state demo_config)) = Returned () \<and>
   map fst (build_runs (emitted (demo_state demo_config)
       (snd (run_builds demo_env demo_config (demo_state demo_config))))) = [''echo win'', ''false''] \<and>
   announced (emitted (demo_state demo_config)
       (snd (run_builds demo_env demo_config (demo_state demo_config)))) = [''windows'', ''macos''] \<and>
   hook_calls (emitted (demo_state demo_config)
       (snd (run_builds demo_env demo_config (demo_state demo_config)))) = [(''1.0.0'', ''windows'')] \<and>
   fst (run_builds (demo_env\<lparr>git := \<lambda>t d argv f. (Not_started, f)\<rparr>) demo_config
          (demo_state demo_config)) = Raised OSError \<and>
   build_runs (emitted (demo_state demo_config)
       (snd (run_builds (demo_env\<lparr>git := \<lambda>t d argv f. (Not_started, f)\<rparr>) demo_config
               (demo_state demo_config)))) = [(''echo win'', 0)]"
proof -
  have h: "\<exists>command \<in> set (map snd (platform_build_commands (build demo_config))). command \<noteq> None"
    by (simp add: demo_config_def)
  from multi_platform_iteration [OF h, of demo_env "demo_state demo_config" "[]"] h
    multi_platform_iteration [OF h, of "demo_env\<lparr>git := \<lambda>t d argv f. (Not_started, f)\<rparr>"
      "demo_state demo_config" "[]"]
  show ?thesis by (simp add: run_defs)
qed




text \<open>
  C7. Every entry of the list of push commands is handed to the shell, in the order of the
  list, each in the working directory of the call and on the file system that the entries
  before it have left, whatever their exit status; the exit status recorded for an entry is
  the one the shell gave it. The events of the call are, for each entry in turn, the line
  that announces it, the run, and the line that reports success for status 0 and the failure
  with its status otherwise. The call starts one process for each entry, leaves the file
  system as the last entry left it and the working directory as it was, and raises nothing:
  the commit followed by the push commands ends as the commit ended.
\<close>

theorem push_commands_all_attempted:
  "push_runs (emitted st (execute_vcs_push_commands E cmds st)) =
     sh_results E (clock st) (cwd st) cmds (fs st) \<and>
   map fst (push_runs (emitted st (execute_vcs_push_commands E cmds st))) = cmds \<and>
   emitted st (execute_vcs_push_commands E cmds st) =
     concat (map push_report (push_runs (emitted st (execute_vcs_push_commands E cmds st)))) \<and>
   fs (execute_vcs_push_commands E cmds st) = sh_fs E (clock st) (cwd st) cmds (fs st) \<and>
   clock (execute_vcs_push_commands E cmds st) = clock st + length cmds \<and>
   cwd (execute_vcs_push_commands E cmds st) = cwd st \<and>
   fst (commit_and_push E config platform st) =
     fst (git_commit E (current_version (versioning config)) platform st)"
proof -
  have e: "emitted st (execute_vcs_push_commands E cmds st) =
      concat (map push_report (sh_results E (clock st) (cwd st) cmds (fs st)))"
    using execute_vcs_push_commands_runs [of E cmds st] by (simp add: emitted_append)
  have "fst (commit_and_push E config platform st) =
     fst (git_commit E (current_version (versioning config)) platform st)"
    by (simp add: commit_and_push_def split: prod.splits outcome.splits)
  with e execute_vcs_push_commands_runs [of E cmds st] show ?thesis
    by (simp add: sh_results_commands execute_vcs_push_commands_cwd)
qed

theorem push_commands_all_attempted_witness:
  "emitted (demo_state demo_config)
     (execute_vcs_push_commands demo_env [''push1'', ''push2''] (demo_state demo_config)) =
     [Print (Msg_push_executing ''push1''), Push_run ''push1'' 1, Print (Msg_push_failed 1),
      Print (Msg_push_executing ''push2''), Push_run ''push2'' 0, Print Msg_push_succeeded] \<and>
   clock (execute_vcs_push_commands demo_env [''push1'', ''push2''] (demo_state demo_config)) = 2 \<and>
   fst (commit_and_push demo_env demo_config ''windows'' (demo_state demo_config)) = Returned ()"
  using push_commands_all_attempted [of "demo_state demo_config" demo_env "[''push1'', ''push2'']"
      demo_config "''windows''"]
  by (simp add: run_defs push_report_def)

text \<open>
  C9, as the code has it. The interactive \<^verbatim>\<open>create\<close> command always stores the custom command
  inside the mapping: a manifest that \<^verbatim>\<open>interactive_create\<close> has written has an entry \<^verbatim>\<open>custom\<close>
  that is not \<^verbatim>\<open>null\<close>, the same command as its \<^verbatim>\<open>custom_build_command\<close>. For every manifest
  that loads and whose mapping has an entry \<^verbatim>\<open>custom\<close> that is not \<^verbatim>\<open>null\<close>, in a run that reaches
  the builds: the multi-platform line is the only mode line printed, so custom-command mode
  is not entered; the build commands run are commands of the mapping, in its order and each
  announced under its own label, with the exit status the shell gave, so the field
  \<^verbatim>\<open>custom_build_command\<close> is never run for itself; and \<^verbatim>\<open>git_commit\<close> is called for exactly
  the targets whose command exited with status 0. The claim that the entry \<^verbatim>\<open>custom\<close> is
  always executed does not hold: the loop ends when \<^verbatim>\<open>git_commit\<close> raises for a target that
  built, and the targets after it are not run. A run that returns has announced and run each
  target of the mapping, among them the entry \<^verbatim>\<open>custom\<close> under the label \<^verbatim>\<open>custom\<close>; a run that
  raises has stopped after a build command that exited with status 0.
\<close>

theorem custom_entry_is_a_platform_target:
  "(interactive_create E inputs st0 = (Returned (), st1) \<longrightarrow>
      (\<exists>created command.
          lookup (fs st1) (cwd st0 @ BIRB_CONFIG_FILE) = Some (File (Manifest_json created)) \<and>
          (''custom'', Some command) \<in> set (platform_build_commands (build created)) \<and>
          custom_build_command (build created) = Some command)) \<and>
   (lookup (fs st) (cwd st @ BIRB_CONFIG_FILE) = Some (File (Manifest_json config)) \<and>
    (clean_before_build (build config) = Some True \<longrightarrow>
       \<not> path_isfile st (locate E (cwd st) (output_directory (build config)))) \<and>
    (''custom'', Some c) \<in> set (platform_build_commands (build config)) \<longrightarrow>
      (let r = build_project E st; es = emitted st (snd r);
           cmds = platform_build_commands (build config)
       in modes es = [Msg_building_platforms] \<and>
          prefix (map fst (build_runs es)) (map snd (targets cmds)) \<and>
          announced es = take (length (build_runs es)) (map fst (targets cmds)) \<and>
          (\<forall>run \<in> set (build_runs es). \<exists>t f. snd run = fst (sh E t (cwd st) (fst run) f)) \<and>
          (\<forall>cur. hook_calls es =
                   map (Pair (current_version (versioning config))) (succeeded cur es)) \<and>
          (fst r = Returned () \<longrightarrow>
             zip (announced es) (map fst (build_runs es)) = targets cmds \<and>
             (''custom'', c) \<in> set (zip (announced es) (map fst (build_runs es)))) \<and>
          (\<forall>e. fst r = Raised e \<longrightarrow>
             build_runs es \<noteq> [] \<and> snd (last (build_runs es)) = 0)))"
  using interactive_create_custom [of E inputs st0 st1] custom_entry_trace [of st config E c]
  by blast

theorem custom_entry_is_a_platform_target_witness:
  "fst (interactive_create demo_env demo_answers empty_project) = Returned () \<and>
   lookup (fs (snd (interactive_create demo_env demo_answers empty_project)))
     (cwd (snd (interactive_create demo_env demo_answers empty_project)) @ BIRB_CONFIG_FILE) =
     Some (File (Manifest_json created_config)) \<and>
   clean_before_build (build created_config) = Some False \<and>
   (''custom'', Some ''make build'') \<in> set (platform_build_commands (build created_config)) \<and>
   fst (build_project demo_env (snd (interactive_create demo_env demo_answers empty_project))) =
     Returned () \<and>
   modes (emitted (snd (interactive_create demo_env demo_answers empty_project))
      (snd (build_project demo_env (snd (interactive_create demo_env demo_answers empty_project))))) =
     [Msg_building_platforms] \<and>
   zip (announced (emitted (snd (interactive_create demo_env demo_answers empty_project))
          (snd (build_project demo_env (snd (interactive_create demo_env demo_answers empty_project))))))
       (map fst (build_runs (emitted (snd (interactive_create demo_env demo_answers empty_project))
          (snd (build_project demo_env (snd (interactive_create demo_env demo_answers empty_project)))))))
     = [(''custom'', ''make build'')]"
proof -
  let ?st = "snd (interactive_create demo_env demo_answers empty_project)"
  obtain prompts where i: "interactive_create demo_env demo_answers empty_project =
      (Returned (),
       \<lparr>cwd = [],
        fs = Dir [(''.birb'', Dir [(''birb.json'', File (Manifest_json created_config))])],
        clock = 0, out = prompts\<rparr>)"
    by (simp add: create_defs)
  have l: "lookup (fs ?st) (cwd ?st @ BIRB_CONFIG_FILE) = Some (File (Manifest_json created_config))"
    by (simp add: i BIRB_CONFIG_FILE_def BIRB_DIR_def)
  have f: "clean_before_build (build created_config) = Some False"
    by (simp add: created_config_def)
  have m: "(''custom'', Some ''make build'') \<in> set (platform_build_commands (build created_config))"
    by (simp add: created_config_def)
  have t: "targets (platform_build_commands (build created_config)) = [(''custom'', ''make build'')]"
    by (simp add: created_config_def)
  have r: "fst (build_project demo_env ?st) = Returned ()"
    unfolding i snd_conv by (simp add: run_defs created_config_def)
  have r0: "fst (interactive_create demo_env demo_answers empty_project) = Returned ()"
    by (simp add: i)
  have c: "interactive_create demo_env demo_answers empty_project = (Returned (), ?st)"
    by (simp add: i)
  have h: "lookup (fs ?st) (cwd ?st @ BIRB_CONFIG_FILE) = Some (File (Manifest_json created_config)) \<and>
      (clean_before_build (build created_config) = Some True \<longrightarrow>
         \<not> path_isfile ?st (locate demo_env (cwd ?st) (output_directory (build created_config)))) \<and>
      (''custom'', Some ''make build'') \<in> set (platform_build_commands (build created_config))"
    using l f m by simp
  note u = custom_entry_is_a_platform_target
             [where E = demo_env and inputs = demo_answers and ?st0.0 = empty_project
                and ?st1.0 = ?st and st = ?st and config = created_config and c = "''make build''",
              THEN conjunct2, THEN mp, OF h, unfolded Let_def]
  note v = custom_entry_is_a_platform_target
             [where E = demo_env and inputs = demo_answers and ?st0.0 = empty_project
                and ?st1.0 = ?st and st = ?st and config = created_config and c = "''make build''",
              THEN conjunct1, THEN mp, OF c]
  have "modes (emitted ?st (snd (build_project demo_env ?st))) = [Msg_building_platforms]"
    using u by blast
  moreover have "zip (announced (emitted ?st (snd (build_project demo_env ?st))))
          (map fst (build_runs (emitted ?st (snd (build_project demo_env ?st))))) =
        targets (platform_build_commands (build created_config))"
    using u r by blast
  ultimately have "modes (emitted ?st (snd (build_project demo_env ?st))) = [Msg_building_platforms] \<and>
      zip (announced (emitted ?st (snd (build_project demo_env ?st))))
          (map fst (build_runs (emitted ?st (snd (build_project demo_env ?st))))) =
        [(''custom'', ''make build'')]"
    using t by simp
  with r0 l f m r v show ?thesis by simp
qed

text \<open>
  The claim C9 fails on this run: the mapping has the entries \<^verbatim>\<open>windows\<close> and \<^verbatim>\<open>custom\<close>, the
  build for \<^verbatim>\<open>windows\<close> succeeds, \<^verbatim>\<open>git\<close> cannot be started, and the run ends with \<^verbatim>\<open>OSError\<close>
  in multi-platform mode before the entry \<^verbatim>\<open>custom\<close> is announced or run.
\<close>

theorem custom_entry_not_reached:
  "lookup (fs (demo_state (with_custom_entry demo_config)))
     (cwd (demo_state (with_custom_entry demo_config)) @ BIRB_CONFIG_FILE) =
     Some (File (Manifest_json (with_custom_entry demo_config))) \<and>
   (''custom'', Some ''make build'') \<in>
     set (platform_build_commands (build (with_custom_entry demo_config))) \<and>
   fst (build_project (demo_env\<lparr>git := \<lambda>t d argv f. (Not_started, f)\<rparr>)
          (demo_state (with_custom_entry demo_config))) = Raised OSError \<and>
   modes (emitted (demo_state (with_custom_entry demo_config))
      (snd (build_project (demo_env\<lparr>git := \<lambda>t d argv f. (Not_started, f)\<rparr>)
              (demo_state (with_custom_entry demo_config))))) = [Msg_building_platforms] \<and>
   announced (emitted (demo_state (with_custom_entry demo_config))
      (snd (build_project (demo_env\<lparr>git := \<lambda>t d argv f. (Not_started, f)\<rparr>)
              (demo_state (with_custom_entry demo_config))))) = [''windows''] \<and>
   build_runs (emitted (demo_state (with_custom_entry demo_config))
      (snd (build_project (demo_env\<lparr>git := \<lambda>t d argv f. (Not_started, f)\<rparr>)
              (demo_state (with_custom_entry demo_config))))) = [(''build_script.windows.sh'', 0)]"
  by (simp add: run_defs)

text \<open>
  C5. For a manifest on disk with \<^verbatim>\<open>auto_commit\<close> on whose template is text without braces
  around one \<^verbatim>\<open>{version}\<close> and one \<^verbatim>\<open>{platform}\<close>, in either order, the commit message is the
  template with the version in place of the one placeholder and the platform label in place
  of the other, and nothing else changed: \<^verbatim>\<open>str.format\<close> returns it, and \<^verbatim>\<open>git_commit\<close>
  announces the commit with it.
\<close>

theorem commit_message_substituted:
  assumes "lookup (fs st) (cwd st @ BIRB_CONFIG_FILE) = Some (File (Manifest_json config))"
    and "auto_commit (git_integration config)"
    and "brace_free a" and "brace_free b" and "brace_free c"
  shows "(commit_message_template (git_integration config) = a @ ''{version}'' @ b @ ''{platform}'' @ c \<longrightarrow>
            format_template E (commit_message_template (git_integration config)) version platform =
              Returned (a @ version @ b @ platform @ c) \<and>
            take 2 (emitted st (snd (git_commit E version platform st))) =
              [Enter_git_commit version platform,
               Print (Msg_committing (a @ version @ b @ platform @ c))]) \<and>
         (commit_message_template (git_integration config) = a @ ''{platform}'' @ b @ ''{version}'' @ c \<longrightarrow>
            format_template E (commit_message_template (git_integration config)) version platform =
              Returned (a @ platform @ b @ version @ c) \<and>
            take 2 (emitted st (snd (git_commit E version platform st))) =
              [Enter_git_commit version platform,
               Print (Msg_committing (a @ platform @ b @ version @ c))])"
proof (intro conjI impI)
  assume t: "commit_message_template (git_integration config) = a @ ''{version}'' @ b @ ''{platform}'' @ c"
  show f: "format_template E (commit_message_template (git_integration config)) version platform =
              Returned (a @ version @ b @ platform @ c)"
    unfolding t using assms(3-5) by (rule format_version_platform(1))
  show "take 2 (emitted st (snd (git_commit E version platform st))) =
              [Enter_git_commit version platform,
               Print (Msg_committing (a @ version @ b @ platform @ c))]"
    using assms(1,2) f by (rule git_commit_message)
next
  assume t: "commit_message_template (git_integration config) = a @ ''{platform}'' @ b @ ''{version}'' @ c"
  show f: "format_template E (commit_message_template (git_integration config)) version platform =
              Returned (a @ platform @ b @ version @ c)"
    unfolding t using assms(3-5) by (rule format_version_platform(2))
  show "take 2 (emitted st (snd (git_commit E version platform st))) =
              [Enter_git_commit version platform,
               Print (Msg_committing (a @ platform @ b @ version @ c))]"
    using assms(1,2) f by (rule git_commit_message)
qed

theorem commit_message_substituted_witness:
  "lookup (fs (demo_state demo_config)) (cwd (demo_state demo_config) @ BIRB_CONFIG_FILE) =
     Some (File (Manifest_json demo_config)) \<and>
   auto_commit (git_integration demo_config) \<and>
   brace_free ''Release '' \<and> brace_free '' for '' \<and> brace_free [] \<and>
   commit_message_template (git_integration demo_config) =
     ''Release '' @ ''{version}'' @ '' for '' @ ''{platform}'' @ [] \<and>
   format_template demo_env (commit_message_template (git_integration demo_config)) ''1.0.0'' ''linux'' =
     Returned ''Release 1.0.0 for linux'' \<and>
   take 2 (emitted (demo_state demo_config)
      (snd (git_commit demo_env ''1.0.0'' ''linux'' (demo_state demo_config)))) =
     [Enter_git_commit ''1.0.0'' ''linux'', Print (Msg_committing ''Release 1.0.0 for linux'')] \<and>
   brace_free ''['' \<and> brace_free ''] release '' \<and>
   commit_message_template (git_integration (platform_first demo_config)) =
     ''['' @ ''{platform}'' @ ''] release '' @ ''{version}'' @ [] \<and>
   format_template demo_env (commit_message_template (git_integration (platform_first demo_config)))
      ''1.0.0'' ''linux'' = Returned ''[linux] release 1.0.0''"
proof -
  have l: "lookup (fs (demo_state c)) (cwd (demo_state c) @ BIRB_CONFIG_FILE) =
      Some (File (Manifest_json c))" for c
    by (simp add: demo_state_def BIRB_CONFIG_FILE_def BIRB_DIR_def)
  have a: "auto_commit (git_integration demo_config)"
    "auto_commit (git_integration (platform_first demo_config))"
    by (simp_all add: demo_config_def platform_first_def)
  have b: "brace_free ''Release ''" "brace_free '' for ''" "brace_free []"
    "brace_free ''[''" "brace_free ''] release ''"
    by (simp_all add: brace_free_def)
  have t: "commit_message_template (git_integration demo_config) =
     ''Release '' @ ''{version}'' @ '' for '' @ ''{platform}'' @ []"
    "commit_message_template (git_integration (platform_first demo_config)) =
     ''['' @ ''{platform}'' @ ''] release '' @ ''{version}'' @ []"
    by (simp_all add: demo_config_def platform_first_def)
  from commit_message_substituted [OF l a(1) b(1) b(2) b(3), of demo_env "''1.0.0''" "''linux''"]
    commit_message_substituted [OF l a(2) b(4) b(5) b(3), of demo_env "''1.0.0''" "''linux''"]
    l [of demo_config] a b t
  show ?thesis by simp
qed

text \<open>
  C10, as the code has it. \<^verbatim>\<open>git_commit\<close> takes the version and the platform label only and
  loads the manifest itself, so what it does depends on the file at the time of the call:
  when the file holds a manifest with \<^verbatim>\<open>auto_commit\<close> off it returns at once; when
  \<^verbatim>\<open>auto_commit\<close> is on, the commit message is formatted from the template of that file;
  and when the file is not there it commits nothing and returns, but not silently:
  \<^verbatim>\<open>load_birb_json\<close> prints its error line.
\<close>

theorem hook_reads_manifest_at_hook_time:
  "(\<not> path_exists st (cwd st @ BIRB_CONFIG_FILE) \<longrightarrow>
      git_commit E version platform st =
        (Returned (),
         st\<lparr>out := out st @ [Enter_git_commit version platform, Print Msg_manifest_not_found]\<rparr>)) \<and>
   (\<forall>c. lookup (fs st) (cwd st @ BIRB_CONFIG_FILE) = Some (File (Manifest_json c)) \<longrightarrow>
      (\<not> auto_commit (git_integration c) \<longrightarrow>
         git_commit E version platform st =
           (Returned (), emit (Enter_git_commit version platform) st)) \<and>
      (\<forall>m. auto_commit (git_integration c) \<and>
            format_template E (commit_message_template (git_integration c)) version platform =
              Returned m \<longrightarrow>
            take 2 (emitted st (snd (git_commit E version platform st))) =
              [Enter_git_commit version platform, Print (Msg_committing m)]))"
  using git_commit_absent [of st E version platform]
    git_commit_no_auto_commit [where st = st and E = E and version = version and platform = platform]
    git_commit_message [where st = st and E = E and version = version and platform = platform]
  by blast

theorem hook_reads_manifest_at_hook_time_witness:
  "\<not> path_exists empty_project (cwd empty_project @ BIRB_CONFIG_FILE) \<and>
   git_commit demo_env ''1.0.0'' ''linux'' empty_project =
     (Returned (),
      empty_project\<lparr>out := [Enter_git_commit ''1.0.0'' ''linux'', Print Msg_manifest_not_found]\<rparr>) \<and>
   lookup (fs (demo_state (no_auto_commit demo_config)))
     (cwd (demo_state (no_auto_commit demo_config)) @ BIRB_CONFIG_FILE) =
     Some (File (Manifest_json (no_auto_commit demo_config))) \<and>
   \<not> auto_commit (git_integration (no_auto_commit demo_config)) \<and>
   out (snd (git_commit demo_env ''1.0.0'' ''linux'' (demo_state (no_auto_commit demo_config)))) =
     [Enter_git_commit ''1.0.0'' ''linux''] \<and>
   lookup (fs (demo_state (platform_first demo_config)))
     (cwd (demo_state (platform_first demo_config)) @ BIRB_CONFIG_FILE) =
     Some (File (Manifest_json (platform_first demo_config))) \<and>
   auto_commit (git_integration (platform_first demo_config)) \<and>
   take 2 (emitted (demo_state (platform_first demo_config))
      (snd (git_commit demo_env ''1.0.0'' ''linux'' (demo_state (platform_first demo_config))))) =
     [Enter_git_commit ''1.0.0'' ''linux'', Print (Msg_committing ''[linux] release 1.0.0'')]"
  using hook_reads_manifest_at_hook_time [of empty_project demo_env "''1.0.0''" "''linux''"]
    hook_reads_manifest_at_hook_time [of "demo_state (no_auto_commit demo_config)" demo_env "''1.0.0''" "''linux''"]
    hook_reads_manifest_at_hook_time [of "demo_state (platform_first demo_config)" demo_env "''1.0.0''" "''linux''"]
  by (simp add: run_defs empty_project_def no_auto_commit_def platform_first_def)

text \<open>
  The claim C10 says that the hook is silent when the manifest is missing; on the empty
  project it prints the line \<^verbatim>\<open>Error: .birb/birb.json not found!\<close>.
\<close>

theorem missing_manifest_is_reported:
  "printed (out (snd (git_commit demo_env ''1.0.0'' ''linux'' empty_project))) =
     [Msg_manifest_not_found]"
  by (simp add: run_defs empty_project_def)

text \<open>
  C8, as the code has it. \<^verbatim>\<open>build_project\<close> never writes the manifest and never looks at
  \<^verbatim>\<open>auto_increment\<close> or \<^verbatim>\<open>increment_type\<close>; but the cleaning deletes the regular files of the
  output directory, and the manifest is one when \<^verbatim>\<open>output_directory\<close> names the directory
  \<^verbatim>\<open>.birb\<close>. So: when the commands that the run starts leave the manifest file as it is, and
  the cleaning is off or the output directory is not the directory of the manifest, the
  manifest file after the run is what it was before (whether the run returns or raises), at
  the same place, since the working directory is the same too.
\<close>

theorem manifest_left_as_it_is:
  assumes "commands_keep E (cwd st @ BIRB_CONFIG_FILE)"
    and "\<forall>config. lookup (fs st) (cwd st @ BIRB_CONFIG_FILE) = Some (File (Manifest_json config)) \<and>
           clean_before_build (build config) = Some True \<longrightarrow>
           locate E (cwd st) (output_directory (build config)) \<noteq> cwd st @ [BIRB_DIR]"
  shows "lookup (fs (snd (build_project E st))) (cwd st @ BIRB_CONFIG_FILE) =
           lookup (fs st) (cwd st @ BIRB_CONFIG_FILE) \<and>
         cwd (snd (build_project E st)) = cwd st"
proof (cases "load_birb_json st")
  case (Pair r st0)
  have s0: "fs st0 = fs st" "cwd st0 = cwd st"
    using load_birb_json_fields(1,2) [of st] Pair by simp_all
  let ?q = "cwd st @ BIRB_CONFIG_FILE"
  show ?thesis
  proof (cases "\<exists>config. r = Returned (Some config)")
    case False
    then have "snd (build_project E st) = st0"
      using Pair by (auto simp: build_project_def split: outcome.splits option.splits)
    with s0 show ?thesis by simp
  next
    case True
    then obtain config where r: "r = Returned (Some config)" by blast
    then have l: "lookup (fs st) ?q = Some (File (Manifest_json config))"
      using Pair by (simp add: load_birb_json_Some)
    note bp = build_project_loaded [OF l, of E]
    note rk = run_builds_keeps [OF assms(1), of config]
    show ?thesis
    proof (cases "clean_before_build (build config) = Some True")
      case False
      with bp rk [of st] show ?thesis by simp
    next
      case True
      let ?od = "output_directory (build config)"
      let ?st1 = "print (Msg_cleaning ?od) st"
      have ne: "locate E (cwd ?st1) ?od \<noteq> cwd st @ [BIRB_DIR]"
        using assms(2) l True by simp
      have l1: "lookup (fs ?st1) ((cwd st @ [BIRB_DIR]) @ [''birb.json'']) =
          Some (File (Manifest_json config))"
        using l by (simp add: BIRB_CONFIG_FILE_def)
      obtain rc st2 where c: "clean_old_builds E ?od ?st1 = (rc, st2)"
        by (cases "clean_old_builds E ?od ?st1")
      have k: "lookup (fs st2) ?q = lookup (fs st) ?q"
        using clean_old_builds_keeps [OF l1 ne] c by (simp add: BIRB_CONFIG_FILE_def)
      have cw: "cwd st2 = cwd st"
        using clean_old_builds_cwd [of E ?od ?st1] c by simp
      show ?thesis
        using bp True c k cw rk [of st2] by (cases rc) simp_all
    qed
  qed
qed

theorem manifest_left_as_it_is_witness:
  "commands_keep demo_env (cwd (demo_state demo_config) @ BIRB_CONFIG_FILE) \<and>
   lookup (fs (demo_state demo_config)) (cwd (demo_state demo_config) @ BIRB_CONFIG_FILE) =
     Some (File (Manifest_json demo_config)) \<and>
   clean_before_build (build demo_config) = Some True \<and>
   locate demo_env (cwd (demo_state demo_config)) (output_directory (build demo_config)) \<noteq>
     cwd (demo_state demo_config) @ [BIRB_DIR] \<and>
   lookup (fs (snd (build_project demo_env (demo_state demo_config))))
     (cwd (demo_state demo_config) @ BIRB_CONFIG_FILE) = Some (File (Manifest_json demo_config)) \<and>
   cwd (snd (build_project demo_env (demo_state demo_config))) = cwd (demo_state demo_config)"
proof -
  have k: "commands_keep demo_env (cwd (demo_state demo_config) @ BIRB_CONFIG_FILE)"
    by (simp add: commands_keep_def demo_env_def)
  have l: "lookup (fs (demo_state demo_config)) (cwd (demo_state demo_config) @ BIRB_CONFIG_FILE) =
     Some (File (Manifest_json demo_config))"
    by (simp add: demo_state_def BIRB_CONFIG_FILE_def BIRB_DIR_def)
  have c: "clean_before_build (build demo_config) = Some True"
    by (simp add: demo_config_def)
  have n: "locate demo_env (cwd (demo_state demo_config)) (output_directory (build demo_config)) \<noteq>
     cwd (demo_state demo_config) @ [BIRB_DIR]"
    by (simp add: demo_env_def demo_state_def demo_config_def BIRB_DIR_def)
  have h: "\<forall>config. lookup (fs (demo_state demo_config))
              (cwd (demo_state demo_config) @ BIRB_CONFIG_FILE) = Some (File (Manifest_json config)) \<and>
           clean_before_build (build config) = Some True \<longrightarrow>
           locate demo_env (cwd (demo_state demo_config)) (output_directory (build config)) \<noteq>
             cwd (demo_state demo_config) @ [BIRB_DIR]"
    using l n by auto
  from manifest_left_as_it_is [OF k h] k l c n
  show ?thesis by simp
qed

text \<open>
  The claim C8 fails on a manifest with \<^verbatim>\<open>clean_before_build\<close> on and \<^verbatim>\<open>.birb\<close> as its
  \<^verbatim>\<open>output_directory\<close>: the first two lines of the run announce the cleaning and the deletion
  of \<^verbatim>\<open>birb.json\<close>, and the manifest is gone after the run.
\<close>

theorem cleaning_deletes_the_manifest:
  "lookup (fs (demo_state (cleans_own_directory demo_config))) [''.birb'', ''birb.json''] =
     Some (File (Manifest_json (cleans_own_directory demo_config))) \<and>
   lookup (fs (snd (build_project demo_env (demo_state (cleans_own_directory demo_config)))))
     [''.birb'', ''birb.json''] = None \<and>
   take 2 (out (snd (build_project demo_env (demo_state (cleans_own_directory demo_config))))) =
     [Print (Msg_cleaning ''.birb''), Print (Msg_deleted ''.birb'' ''birb.json'')]"
  by (simp add: run_defs cleans_own_directory_def)

end
